theory Spec2Isabelle
  imports Complex_Main "HOL-Library.Sublist" "HOL-Library.Multiset"
begin

section \<open>JavaScript values used by the client\<close>

text \<open>
  A JavaScript number is a binary64 value: NaN, one of the two infinities, or a finite
  number. \<open>Number r\<close> stands for the finite binary64 number whose value is the real \<open>r\<close>;
  the two zeros are both \<open>Number 0\<close>, which none of the operations below tells apart.
  The comparisons, \<open>Math.abs\<close> and \<open>isNaN\<close> are exact on binary64 values and are defined
  here. The operations that round or that read and print text are those of the engine
  that runs the code, and are parameters (\<open>engine\<close>, below).
\<close>

datatype jsnum = NaN | Number real | PosInf | NegInf

text \<open>The global \<open>isNaN\<close>, applied to a number.\<close>

definition isNaN :: "jsnum \<Rightarrow> bool" where
  "isNaN x = (x = NaN)"

text \<open>The relational operator \<open><\<close>: false as soon as one operand is NaN.\<close>

fun js_lt :: "jsnum \<Rightarrow> jsnum \<Rightarrow> bool" where
  "js_lt NaN y = False"
| "js_lt x NaN = False"
| "js_lt (Number a) (Number b) = (a < b)"
| "js_lt (Number a) PosInf = True"
| "js_lt (Number a) NegInf = False"
| "js_lt PosInf y = False"
| "js_lt NegInf NegInf = False"
| "js_lt NegInf y = True"

text \<open>\<open>a > b\<close> is \<open>b < a\<close>.\<close>

definition js_gt :: "jsnum \<Rightarrow> jsnum \<Rightarrow> bool" where
  "js_gt a b = js_lt b a"

text \<open>Strict equality \<open>===\<close> on numbers: NaN equals nothing.\<close>

definition js_eq :: "jsnum \<Rightarrow> jsnum \<Rightarrow> bool" where
  "js_eq a b = (a \<noteq> NaN \<and> a = b)"

fun js_abs :: "jsnum \<Rightarrow> jsnum" where
  "js_abs NaN = NaN"
| "js_abs (Number a) = Number \<bar>a\<bar>"
| "js_abs PosInf = PosInf"
| "js_abs NegInf = PosInf"

text \<open>
  The literal \<open>1e-5\<close>: the binary64 number nearest to 1/100000, which is
  5902958103587057 / 2^69 (\<open>0x1.4f8b588e368f1p-17\<close>), a little above 1/100000.
\<close>

definition lit_1e_5 :: jsnum where
  "lit_1e_5 = Number (5902958103587057 / 2 ^ 69)"

text \<open>
  A value as it is at run time, where the declared TypeScript types are erased: what
  \<open>response.json()\<close> delivers for a field is a number, a string, a boolean, \<open>null\<close>, an
  object or array (\<open>JObject\<close>, its contents are never read), or nothing (\<open>undefined\<close>).
\<close>

datatype jsval = JNum jsnum | JStr string | JBool bool | JNull | JUndefined | JObject

fun typeof :: "jsval \<Rightarrow> string" where
  "typeof (JNum n) = ''number''"
| "typeof (JStr s) = ''string''"
| "typeof (JBool b) = ''boolean''"
| "typeof JNull = ''object''"
| "typeof JUndefined = ''undefined''"
| "typeof JObject = ''object''"

text \<open>\<open>Number.isNaN\<close>: true of the number NaN only, without conversion.\<close>

definition Number_isNaN :: "jsval \<Rightarrow> bool" where
  "Number_isNaN v = (v = JNum NaN)"

text \<open>\<open>v === n\<close> for a number \<open>n\<close>: false when \<open>v\<close> is not a number.\<close>

definition strict_eq :: "jsval \<Rightarrow> jsnum \<Rightarrow> bool" where
  "strict_eq v n = (case v of JNum a \<Rightarrow> js_eq a n | _ \<Rightarrow> False)"

text \<open>
  The engine: \<open>String.prototype.trim\<close> (white space, Unicode's included, removed at both
  ends), the global \<open>parseFloat\<close> (the longest prefix that is a decimal literal, rounded to
  binary64; NaN when there is none), the conversion of a value to a string in a template
  literal, and the operator \<open>-\<close> (both operands converted to numbers, the difference
  rounded to binary64). The theorems about the client hold for every engine.
\<close>

record engine =
  trim :: "string \<Rightarrow> string"
  parseFloat :: "string \<Rightarrow> jsnum"
  toStr :: "jsval \<Rightarrow> string"
  js_minus :: "jsval \<Rightarrow> jsval \<Rightarrow> jsnum"

section \<open>The route context (route-context)\<close>

text \<open>
  \<open>PlaceStop\<close>: the fields the modelled functions read or write. Its other fields are
  optional and are left unset by them. \<open>lat\<close> and \<open>lng\<close> are declared \<open>number\<close>; they are
  kept as run-time values, since the stops are built from the server's response and
  \<open>buildPoints\<close> tests their type.
\<close>

record PlaceStop =
  place_id :: string
  name :: string
  address :: string
  lat :: jsval
  lng :: jsval
  types :: "string list option"

text \<open>The user's location, as the browser's geolocation delivers it.\<close>

record GeoLocation =
  latitude :: jsnum
  longitude :: jsnum

type_synonym LngLat = "jsval \<times> jsval"

record RouteContext =
  userLocation :: "GeoLocation option"
  stops :: "PlaceStop list"
  waypoints :: "LngLat list"

section \<open>The filter panel (FilterPanel.tsx)\<close>

record Interests =
  shopping :: bool
  food :: bool
  entertainment :: bool
  scenery :: bool

record TimeRange =
  time_start :: string
  time_end :: string

record IndoorOutdoor =
  indoor :: bool
  outdoor :: bool

record FilterState =
  energy :: jsnum
  interests :: Interests
  budget :: jsnum
  time :: TimeRange
  indoorOutdoor :: IndoorOutdoor
  distance :: string

text \<open>
  An activity of the response. \<open>lat\<close> and \<open>lon\<close> are kept as run-time values; the other
  fields are at their declared types.
\<close>

record SidequestActivity =
  title :: string
  lat :: jsval
  lon :: jsval
  start_time :: "string option"
  duration_hours :: jsnum
  cost :: "jsnum option"
  activity_type :: string
  indoor_outdoor :: string
  energy_level :: jsnum
  confidence :: jsnum

record ResponseMetadata =
  activities_considered :: jsnum
  activities_selected :: jsnum
  activities_in_itinerary :: jsnum
  generation_time :: "string option"

record SidequestResponse =
  itinerary :: "SidequestActivity list"
  total_duration :: jsnum
  total_cost :: jsnum
  summary :: string
  metadata :: ResponseMetadata

text \<open>The body of the POST request, \<open>sidequestData\<close>; \<open>null\<close> is \<open>None\<close>.\<close>

record SidequestRequest =
  lat :: jsnum
  lon :: jsnum
  travel_distance :: jsnum
  start_time :: string
  end_time :: string
  budget :: "jsnum option"
  interests :: "string list"
  energy :: jsnum
  indoor_outdoor :: "string option"
  user_id :: string

text \<open>
  \<open>mapActivityToPlaceStop\<close>. The template literal of \<open>place_id\<close> converts the index and the
  coordinates to strings.
\<close>

definition mapActivityToPlaceStop :: "engine \<Rightarrow> SidequestActivity \<Rightarrow> nat \<Rightarrow> PlaceStop" where
  "mapActivityToPlaceStop js activity index =
     \<lparr> place_id = ''sidequest-'' @ toStr js (JNum (Number (real index))) @ ''-''
          @ title activity @ ''-''
          @ toStr js (SidequestActivity.lat activity) @ '',''
          @ toStr js (SidequestActivity.lon activity),
       name = title activity,
       address = '''',
       lat = SidequestActivity.lat activity,
       lng = SidequestActivity.lon activity,
       types = Some [activity_type activity] \<rparr>"

text \<open>\<open>Object.keys(filters.interests)\<close> in insertion order, filtered by the checkbox.\<close>

definition selectedInterests :: "FilterState \<Rightarrow> string list" where
  "selectedInterests filters =
     map fst (filter snd
       [(''shopping'', shopping (FilterState.interests filters)),
        (''food'', food (FilterState.interests filters)),
        (''entertainment'', entertainment (FilterState.interests filters)),
        (''scenery'', scenery (FilterState.interests filters))])"

definition selectedIndoorOutdoor :: "FilterState \<Rightarrow> string option" where
  "selectedIndoorOutdoor filters =
     (if indoor (indoorOutdoor filters) \<and> outdoor (indoorOutdoor filters) then None
      else if indoor (indoorOutdoor filters) then Some ''indoor''
      else if outdoor (indoorOutdoor filters) then Some ''outdoor''
      else None)"

definition sidequestData :: "FilterState \<Rightarrow> GeoLocation \<Rightarrow> jsnum \<Rightarrow> SidequestRequest" where
  "sidequestData filters location distanceNumber =
     \<lparr> lat = latitude location,
       lon = longitude location,
       travel_distance = distanceNumber,
       start_time = time_start (time filters),
       end_time = time_end (time filters),
       budget = (if js_gt (FilterState.budget filters) (Number 0)
                 then Some (FilterState.budget filters) else None),
       interests = selectedInterests filters,
       energy = FilterState.energy filters,
       indoor_outdoor = selectedIndoorOutdoor filters,
       user_id = ''test_user'' \<rparr>"

text \<open>
  What the server answers to the POST: a response with \<open>response.ok\<close> and its body, a
  response that is not ok (status and text), or a failed \<open>fetch\<close>.
\<close>

datatype reply = Ok SidequestResponse | NotOk nat string | FetchError

text \<open>The \<open>alert\<close> calls of the handler, by message.\<close>

datatype alert =
    PleaseEnterDistance
  | DistanceMustBeValid
  | EnableLocationAccess
  | SidequestGenerated nat jsnum
  | FailedToGenerate
  | UnexpectedError

text \<open>
  The effects of one run of the handler: the alerts shown, the POST request issued (if
  any), and the route context afterwards.
\<close>

record outcome =
  alerts :: "alert list"
  request :: "SidequestRequest option"
  ctx :: RouteContext

text \<open>The branch \<open>if (response.ok)\<close>: stops and waypoints are written to the context.\<close>

definition onResponseOk ::
    "engine \<Rightarrow> GeoLocation \<Rightarrow> SidequestResponse \<Rightarrow> RouteContext \<Rightarrow> RouteContext" where
  "onResponseOk js location result c =
     (let placeStops = map (\<lambda>(index, activity). mapActivityToPlaceStop js activity index)
                         (enumerate 0 (itinerary result));
          wps = (JNum (longitude location), JNum (latitude location))
                  # map (\<lambda>stop. (lng stop, PlaceStop.lat stop)) placeStops
      in c\<lparr>stops := placeStops, waypoints := wps\<rparr>)"

text \<open>
  \<open>handleGenerateSidequest\<close>. \<open>geo\<close> is the result of \<open>getUserLocation\<close> (\<open>Inl\<close> when the
  promise rejects), \<open>server\<close> the answer to the request.
\<close>

definition handleGenerateSidequest ::
    "engine \<Rightarrow> FilterState \<Rightarrow> string + GeoLocation \<Rightarrow> (SidequestRequest \<Rightarrow> reply)
      \<Rightarrow> RouteContext \<Rightarrow> outcome" where
  "handleGenerateSidequest js filters geo server c =
     (if trim js (distance filters) = '''' then
        \<lparr> alerts = [PleaseEnterDistance], request = None, ctx = c \<rparr>
      else
        (let distanceNumber = parseFloat js (distance filters)
         in if isNaN distanceNumber \<or> js_lt distanceNumber (Number 0) then
              \<lparr> alerts = [DistanceMustBeValid], request = None, ctx = c \<rparr>
            else
              (case geo of
                 Inl err \<Rightarrow> \<lparr> alerts = [EnableLocationAccess], request = None, ctx = c \<rparr>
               | Inr location \<Rightarrow>
                   (let c1 = c\<lparr>userLocation := Some location\<rparr>;
                        dat = sidequestData filters location distanceNumber
                    in case server dat of
                         Ok result \<Rightarrow>
                           \<lparr> alerts = [SidequestGenerated (length (itinerary result))
                                         (total_duration result)],
                             request = Some dat,
                             ctx = onResponseOk js location result c1 \<rparr>
                       | NotOk status txt \<Rightarrow>
                           \<lparr> alerts = [FailedToGenerate], request = Some dat, ctx = c1 \<rparr>
                       | FetchError \<Rightarrow>
                           \<lparr> alerts = [UnexpectedError], request = Some dat, ctx = c1 \<rparr>))))"

section \<open>The route planning panel (RoutePlanningPanel.tsx)\<close>

definition nearlySame :: "engine \<Rightarrow> LngLat \<Rightarrow> LngLat \<Rightarrow> bool" where
  "nearlySame js a b =
     (case a of (aLng, aLat) \<Rightarrow> case b of (bLng, bLat) \<Rightarrow>
        js_lt (js_abs (js_minus js aLng bLng)) lit_1e_5
        \<and> js_lt (js_abs (js_minus js aLat bLat)) lit_1e_5)"

text \<open>The test of \<open>buildPoints\<close> on a stop.\<close>

definition has_coordinates :: "PlaceStop \<Rightarrow> bool" where
  "has_coordinates s =
     (typeof (lng s) = ''number''
      \<and> typeof (PlaceStop.lat s) = ''number''
      \<and> \<not> Number_isNaN (lng s)
      \<and> \<not> Number_isNaN (PlaceStop.lat s)
      \<and> \<not> (strict_eq (lng s) (Number 0) \<and> strict_eq (PlaceStop.lat s) (Number 0)))"

text \<open>The loop of \<open>buildPoints\<close> over the stops, \<open>pts\<close> being the list built so far.\<close>

fun push_stops :: "engine \<Rightarrow> LngLat list \<Rightarrow> PlaceStop list \<Rightarrow> LngLat list" where
  "push_stops js pts [] = pts"
| "push_stops js pts (s # ss) =
     (if has_coordinates s then
        (let pt = (lng s, PlaceStop.lat s)
         in if pts = [] \<or> \<not> nearlySame js (last pts) pt then push_stops js (pts @ [pt]) ss
            else push_stops js pts ss)
      else push_stops js pts ss)"

definition buildPoints :: "engine \<Rightarrow> RouteContext \<Rightarrow> LngLat list" where
  "buildPoints js c =
     push_stops js
       (case userLocation c of
          None \<Rightarrow> []
        | Some u \<Rightarrow> [(JNum (longitude u), JNum (latitude u))])
       (stops c)"

datatype profile = Walking | Driving | Cycling

text \<open>
  \<open>MAPBOX_TOKEN\<close>, from the environment variable (\<open>None\<close> when unset): \<open>||\<close> falls back to
  the placeholder when the variable is unset or empty.
\<close>

definition MAPBOX_TOKEN :: "string option \<Rightarrow> string" where
  "MAPBOX_TOKEN env =
     (case env of
        None \<Rightarrow> ''YOUR_MAPBOX_TOKEN_HERE''
      | Some t \<Rightarrow> if t = '''' then ''YOUR_MAPBOX_TOKEN_HERE'' else t)"

text \<open>
  \<open>handleStart\<close> up to the Directions request: either it sets an error and returns
  without a request, or it hands the points to the map (\<open>setWaypoints\<close>) and fetches the
  URL that \<open>buildDirectionsUrl\<close> builds from the profile and the points. What it does with
  the answer is not part of the model.
\<close>

datatype start_outcome =
    ErrorSet string
  | DirectionsRequested profile "LngLat list"

definition handleStart ::
    "engine \<Rightarrow> string option \<Rightarrow> profile \<Rightarrow> RouteContext \<Rightarrow> start_outcome" where
  "handleStart js env prof c =
     (if MAPBOX_TOKEN env = '''' \<or> MAPBOX_TOKEN env = ''YOUR_MAPBOX_TOKEN_HERE'' then
        ErrorSet ''Missing Mapbox token. Set NEXT_PUBLIC_MAPBOX_TOKEN.''
      else
        (let points = buildPoints js c
         in if length points < 2 then
              ErrorSet ''Add at least a start and one destination with valid coordinates.''
            else DirectionsRequested prof points))"

text \<open>
  The initial state of the panel (\<open>useState\<close>) and the empty route context of
  \<open>RouteProvider\<close>.
\<close>

definition initial_filters :: FilterState where
  "initial_filters =
     \<lparr> FilterState.energy = Number 5,
       FilterState.interests =
         \<lparr> shopping = False, food = False, entertainment = False, scenery = False \<rparr>,
       FilterState.budget = Number 0,
       time = \<lparr> time_start = ''09:00'', time_end = ''17:00'' \<rparr>,
       indoorOutdoor = \<lparr> indoor = False, outdoor = False \<rparr>,
       distance = ''5'' \<rparr>"

definition empty_context :: RouteContext where
  "empty_context = \<lparr> userLocation = None, stops = [], waypoints = [] \<rparr>"

section \<open>The itinerary planner\<close>

text \<open>
  The server behind \<open>/sidequest\<close> is not among the sources; only its callers and its
  examples are. The planner below is modelled from the specification, stage by stage.
  Times are hours on a 24-hour scale. Three things the specification names without a
  formula are parameters: \<open>dist_km\<close>, the distance in km between two locations; \<open>score\<close>, the
  composite score of a candidate; and \<open>arrange\<close>, the ordering heuristic of the sequencer.
\<close>

datatype category = Shopping | Meals | Bites | Entertainment | Physical_activity | Scenery

datatype in_out = Indoor | Outdoor | Mixed

record ActivityCandidate =
  cid :: nat
  title :: string
  location :: "real \<times> real"
  category :: category
  cost :: real
  duration_hours :: real
  energy_level :: int
  indoor_outdoor :: in_out
  confidence :: real
  open_interval :: "(real \<times> real) option"
  visited :: bool

record PlanRequest =
  origin :: "real \<times> real"
  radius_km :: real
  start_time :: real
  end_time :: real
  budget :: "real option"
  interests :: "string list"
  energy :: int
  indoor_outdoor :: "in_out option"
  user_id :: string

text \<open>
  Modelled from the spec: \<open>ItineraryItem\<close>. \<open>item_category\<close> is the category of the
  candidate, which the invariants of the specification attribute to the item.
\<close>

record ItineraryItem =
  activity_id :: nat
  assigned_start_time :: real
  duration_hours :: real
  cost :: real
  sequence_index :: nat
  item_category :: category

text \<open>
  Modelled from the spec: the summary is free text; what it has to say is one of these.
\<close>

datatype plan_summary = NoCandidatesFound | BudgetInfeasible | Planned nat real

record PlanMetadata =
  activities_considered :: nat
  activities_selected :: nat
  activities_in_itinerary :: nat
  interests_covered :: "category list"
  unvisited_places :: nat

record Itinerary =
  items :: "ItineraryItem list"
  total_duration_hours :: real
  total_cost :: real
  summary :: plan_summary
  metadata :: PlanMetadata

datatype plan_error = InputInvalid

text \<open>Modelled from the spec: the closed category set, by name.\<close>

definition category_table :: "(string \<times> category) list" where
  "category_table =
     [(''shopping'', Shopping), (''meals'', Meals), (''bites'', Bites),
      (''entertainment'', Entertainment), (''physical_activity'', Physical_activity),
      (''scenery'', Scenery)]"

definition category_names :: "string list" where
  "category_names = map fst category_table"

definition category_of :: "string \<Rightarrow> category option" where
  "category_of s = map_of category_table s"

text \<open>
  Modelled from the spec: the normalization of \<open>interests\<close> (section 4.4). A string that
  is not in the closed set is discarded; an empty result is replaced by \<open>entertainment\<close>.
\<close>

definition normalize_interests :: "string list \<Rightarrow> category list" where
  "normalize_interests xs =
     (let cs = remdups (concat (map (\<lambda>s. case category_of s of None \<Rightarrow> [] | Some k \<Rightarrow> [k]) xs))
      in if cs = [] then [Entertainment] else cs)"

text \<open>
  Modelled from the spec: InputInvalid (section 7), on a plan request.
\<close>

definition request_invalid :: "PlanRequest \<Rightarrow> bool" where
  "request_invalid rq =
     (PlanRequest.end_time rq \<le> PlanRequest.start_time rq
      \<or> radius_km rq < 0
      \<or> (case PlanRequest.budget rq of None \<Rightarrow> False | Some b \<Rightarrow> b < 0))"

text \<open>
  Modelled from the spec: the constraint filter (section 4.3). A candidate is
  structurally usable when it meets the bounds the data model gives its fields.
\<close>

definition structurally_usable :: "ActivityCandidate \<Rightarrow> bool" where
  "structurally_usable c =
     (0 \<le> ActivityCandidate.cost c \<and> 0 < ActivityCandidate.duration_hours c
      \<and> 0 \<le> ActivityCandidate.energy_level c \<and> ActivityCandidate.energy_level c \<le> 10
      \<and> 0 \<le> ActivityCandidate.confidence c \<and> ActivityCandidate.confidence c \<le> 1)"

definition overlaps_window :: "PlanRequest \<Rightarrow> ActivityCandidate \<Rightarrow> bool" where
  "overlaps_window rq c =
     (case open_interval c of
        None \<Rightarrow> True
      | Some (a, b) \<Rightarrow> a < PlanRequest.end_time rq \<and> PlanRequest.start_time rq < b)"

definition constraint_filter ::
    "(real \<times> real \<Rightarrow> real \<times> real \<Rightarrow> real) \<Rightarrow> PlanRequest \<Rightarrow> ActivityCandidate list
      \<Rightarrow> ActivityCandidate list" where
  "constraint_filter dist_km rq pool =
     filter (\<lambda>c. structurally_usable c \<and> dist_km (origin rq) (location c) \<le> radius_km rq
                 \<and> overlaps_window rq c) pool"

text \<open>
  Modelled from the spec: the choice among candidates (section 4.4): the higher score,
  then the lower cost, then the lower id.
\<close>

definition preferred ::
    "(ActivityCandidate \<Rightarrow> real) \<Rightarrow> ActivityCandidate \<Rightarrow> ActivityCandidate \<Rightarrow> bool" where
  "preferred score a b =
     (score b < score a
      \<or> (score a = score b
          \<and> (ActivityCandidate.cost a < ActivityCandidate.cost b
              \<or> (ActivityCandidate.cost a = ActivityCandidate.cost b \<and> cid a \<le> cid b))))"

fun best ::
    "(ActivityCandidate \<Rightarrow> real) \<Rightarrow> ActivityCandidate \<Rightarrow> ActivityCandidate list
      \<Rightarrow> ActivityCandidate" where
  "best score a [] = a"
| "best score a (b # bs) = best score (if preferred score a b then a else b) bs"

definition best_of ::
    "(ActivityCandidate \<Rightarrow> real) \<Rightarrow> ActivityCandidate list \<Rightarrow> ActivityCandidate option" where
  "best_of score cs = (case cs of [] \<Rightarrow> None | a # bs \<Rightarrow> Some (best score a bs))"

text \<open>
  Modelled from the spec: the category coverage selector (section 4.4): for each
  normalized interest the best candidate of that category, nothing when there is none.
\<close>

definition coverage ::
    "(ActivityCandidate \<Rightarrow> real) \<Rightarrow> category list \<Rightarrow> ActivityCandidate list
      \<Rightarrow> ActivityCandidate list" where
  "coverage score cats pool =
     concat (map (\<lambda>k. case best_of score (filter (\<lambda>c. category c = k) pool) of
                        None \<Rightarrow> []
                      | Some c \<Rightarrow> [c]) cats)"

text \<open>The lowest-scoring item of a non-empty list, the first of them on a tie.\<close>

fun lowest ::
    "(ActivityCandidate \<Rightarrow> real) \<Rightarrow> ActivityCandidate \<Rightarrow> ActivityCandidate list
      \<Rightarrow> ActivityCandidate" where
  "lowest score a [] = a"
| "lowest score a (b # bs) = lowest score (if score b < score a then b else a) bs"

definition lowest_of ::
    "(ActivityCandidate \<Rightarrow> real) \<Rightarrow> ActivityCandidate list \<Rightarrow> ActivityCandidate option" where
  "lowest_of score cs = (case cs of [] \<Rightarrow> None | a # bs \<Rightarrow> Some (lowest score a bs))"

definition drop_lowest ::
    "(ActivityCandidate \<Rightarrow> real) \<Rightarrow> ActivityCandidate list \<Rightarrow> ActivityCandidate list" where
  "drop_lowest score cs =
     (case lowest_of score cs of None \<Rightarrow> cs | Some v \<Rightarrow> remove1 v cs)"

text \<open>
  Modelled from the spec: the meal cap (section 4.5): 3 when the window is longer than
  6 hours, else 2; the lowest-scoring excess \<open>meals\<close> items are dropped.
\<close>

definition meal_cap :: "PlanRequest \<Rightarrow> nat" where
  "meal_cap rq = (if 6 < PlanRequest.end_time rq - PlanRequest.start_time rq then 3 else 2)"

definition is_meal :: "ActivityCandidate \<Rightarrow> bool" where
  "is_meal c = (category c = Meals)"

fun drop_lowest_meals ::
    "(ActivityCandidate \<Rightarrow> real) \<Rightarrow> nat \<Rightarrow> ActivityCandidate list \<Rightarrow> ActivityCandidate list" where
  "drop_lowest_meals score 0 cs = cs"
| "drop_lowest_meals score (Suc n) cs =
     drop_lowest_meals score n
       (case lowest_of score (filter is_meal cs) of None \<Rightarrow> cs | Some v \<Rightarrow> remove1 v cs)"

definition enforce_meal_cap ::
    "(ActivityCandidate \<Rightarrow> real) \<Rightarrow> nat \<Rightarrow> ActivityCandidate list \<Rightarrow> ActivityCandidate list" where
  "enforce_meal_cap score cap cs =
     drop_lowest_meals score (length (filter is_meal cs) - cap) cs"

text \<open>
  Modelled from the spec: the budget-constrained selector (section 4.6). While the total
  exceeds the budget the lowest-scoring item is dropped, among the items whose removal
  leaves one that fits the budget alone, and among these, where there is a choice, not
  the sole unvisited item while a visited one of the same category costs no more. When
  the two preferences leave no item, the second one yields: the budget is a hard
  constraint.
\<close>

definition total_of :: "ActivityCandidate list \<Rightarrow> real" where
  "total_of cs = sum_list (map ActivityCandidate.cost cs)"

definition fits_alone :: "real \<Rightarrow> ActivityCandidate \<Rightarrow> bool" where
  "fits_alone b c = (ActivityCandidate.cost c \<le> b)"

definition keeps_one_fitting :: "real \<Rightarrow> ActivityCandidate list \<Rightarrow> ActivityCandidate \<Rightarrow> bool" where
  "keeps_one_fitting b cs x = list_ex (fits_alone b) (remove1 x cs)"

definition sole_unvisited :: "ActivityCandidate list \<Rightarrow> ActivityCandidate \<Rightarrow> bool" where
  "sole_unvisited cs x =
     (\<not> visited x \<and> length (filter (\<lambda>y. \<not> visited y) cs) = 1
      \<and> list_ex (\<lambda>y. visited y \<and> category y = category x
                      \<and> ActivityCandidate.cost y \<le> ActivityCandidate.cost x) cs)"

definition drop_choices :: "real \<Rightarrow> ActivityCandidate list \<Rightarrow> ActivityCandidate list" where
  "drop_choices b cs =
     (let keep_fit = filter (keeps_one_fitting b cs) cs;
          keep_new = filter (\<lambda>x. \<not> sole_unvisited cs x) keep_fit
      in if keep_new \<noteq> [] then keep_new else if keep_fit \<noteq> [] then keep_fit else cs)"

lemma lowest_mem: "lowest score a bs \<in> set (a # bs)"
  by (induction bs arbitrary: a) auto

lemma lowest_of_mem: "lowest_of score cs = Some v \<Longrightarrow> v \<in> set cs"
  using lowest_mem[of score] by (auto simp: lowest_of_def split: list.splits)

lemma drop_choices_subset: "set (drop_choices b cs) \<subseteq> set cs"
  by (auto simp: drop_choices_def Let_def)

function fit_budget ::
    "(ActivityCandidate \<Rightarrow> real) \<Rightarrow> real \<Rightarrow> ActivityCandidate list \<Rightarrow> ActivityCandidate list" where
  "fit_budget score b cs =
     (if total_of cs \<le> b then cs
      else case lowest_of score (drop_choices b cs) of
             None \<Rightarrow> []
           | Some v \<Rightarrow> fit_budget score b (remove1 v cs))"
  by pat_completeness auto
termination
proof (relation "measure (\<lambda>(score, b, cs). length cs)")
  show "wf (measure (\<lambda>(score, b, cs). length cs))" by simp
next
  fix score :: "ActivityCandidate \<Rightarrow> real" and b cs v
  assume "lowest_of score (drop_choices b cs) = Some v"
  then have "v \<in> set cs"
    using lowest_of_mem drop_choices_subset by blast
  then have "length (remove1 v cs) < length cs"
    using length_pos_if_in_set[of v cs] by (simp add: length_remove1)
  then show "((score, b, remove1 v cs), (score, b, cs)) \<in> measure (\<lambda>(score, b, cs). length cs)"
    by simp
qed

text \<open>
  When nothing of a non-empty selection fits the budget alone, no combination does
  (costs are not negative), and the result is budget infeasibility, \<open>None\<close>.
\<close>

definition budget_selector ::
    "(ActivityCandidate \<Rightarrow> real) \<Rightarrow> real option \<Rightarrow> ActivityCandidate list
      \<Rightarrow> ActivityCandidate list option" where
  "budget_selector score bud cs =
     (case bud of
        None \<Rightarrow> Some cs
      | Some b \<Rightarrow>
          if total_of cs \<le> b then Some cs
          else if list_ex (fits_alone b) cs then Some (fit_budget score b cs)
          else None)"

text \<open>
  Modelled from the spec: the novelty guarantee (section 4.7). When the filtered pool has
  an unvisited candidate and the selection has none, the best unvisited candidate is
  swapped in whose swap keeps the meal cap and the budget: for the selected item of its
  category when there is one, else for the lowest-scoring selected item. The candidate
  is of one of the normalized interests \<open>cats\<close>, as the first invariant of section 3
  requires of every item.
\<close>

definition hard_ok :: "PlanRequest \<Rightarrow> ActivityCandidate list \<Rightarrow> bool" where
  "hard_ok rq cs =
     (length (filter is_meal cs) \<le> meal_cap rq
      \<and> (case PlanRequest.budget rq of None \<Rightarrow> True | Some b \<Rightarrow> total_of cs \<le> b))"

definition swap_in ::
    "(ActivityCandidate \<Rightarrow> real) \<Rightarrow> ActivityCandidate list \<Rightarrow> ActivityCandidate
      \<Rightarrow> ActivityCandidate list option" where
  "swap_in score sel u =
     (case (case filter (\<lambda>s. category s = category u) sel of
              [] \<Rightarrow> lowest_of score sel
            | s # ss \<Rightarrow> Some s) of
        None \<Rightarrow> None
      | Some v \<Rightarrow> Some (u # remove1 v sel))"

definition swap_allowed ::
    "(ActivityCandidate \<Rightarrow> real) \<Rightarrow> PlanRequest \<Rightarrow> category list \<Rightarrow> ActivityCandidate list
      \<Rightarrow> ActivityCandidate \<Rightarrow> bool" where
  "swap_allowed score rq cats sel u =
     (\<not> visited u \<and> category u \<in> set cats
      \<and> (case swap_in score sel u of None \<Rightarrow> False | Some r \<Rightarrow> hard_ok rq r))"

definition novelty_guarantee ::
    "(ActivityCandidate \<Rightarrow> real) \<Rightarrow> PlanRequest \<Rightarrow> category list \<Rightarrow> ActivityCandidate list
      \<Rightarrow> ActivityCandidate list \<Rightarrow> ActivityCandidate list" where
  "novelty_guarantee score rq cats pool sel =
     (if list_ex (\<lambda>c. \<not> visited c) pool \<and> \<not> list_ex (\<lambda>c. \<not> visited c) sel then
        (case best_of score (filter (swap_allowed score rq cats sel) pool) of
           None \<Rightarrow> sel
         | Some u \<Rightarrow> (case swap_in score sel u of None \<Rightarrow> sel | Some r \<Rightarrow> r))
      else sel)"

text \<open>
  Modelled from the spec: the sequencer (section 4.8). The first item starts at
  \<open>start_time\<close>; each later one at the end of the one before it, or at its own opening
  time when that is later. While the last item ends after \<open>end_time\<close>, the lowest-scoring
  item is dropped and the rest is sequenced again.
\<close>

fun assign_from :: "real \<Rightarrow> ActivityCandidate list \<Rightarrow> (ActivityCandidate \<times> real) list" where
  "assign_from t [] = []"
| "assign_from t (c # cs) =
     (let s = (case open_interval c of None \<Rightarrow> t | Some (a, b) \<Rightarrow> max t a)
      in (c, s) # assign_from (s + ActivityCandidate.duration_hours c) cs)"

definition assign_times ::
    "PlanRequest \<Rightarrow> ActivityCandidate list \<Rightarrow> (ActivityCandidate \<times> real) list" where
  "assign_times rq cs =
     (case cs of
        [] \<Rightarrow> []
      | c # r \<Rightarrow>
          (c, PlanRequest.start_time rq)
            # assign_from (PlanRequest.start_time rq + ActivityCandidate.duration_hours c) r)"

definition fits_window :: "PlanRequest \<Rightarrow> (ActivityCandidate \<times> real) list \<Rightarrow> bool" where
  "fits_window rq sched =
     (case rev sched of
        [] \<Rightarrow> True
      | (c, s) # r \<Rightarrow> s + ActivityCandidate.duration_hours c \<le> PlanRequest.end_time rq)"

lemma drop_lowest_shorter: "cs \<noteq> [] \<Longrightarrow> length (drop_lowest score cs) < length cs"
proof -
  assume "cs \<noteq> []"
  then obtain v where v: "lowest_of score cs = Some v"
    by (cases cs) (auto simp: lowest_of_def)
  then have "v \<in> set cs" by (rule lowest_of_mem)
  with v \<open>cs \<noteq> []\<close> show ?thesis
    by (simp add: drop_lowest_def length_remove1)
qed

function sequencer ::
    "(ActivityCandidate \<Rightarrow> real) \<Rightarrow> (ActivityCandidate list \<Rightarrow> ActivityCandidate list)
      \<Rightarrow> PlanRequest \<Rightarrow> ActivityCandidate list \<Rightarrow> (ActivityCandidate \<times> real) list" where
  "sequencer score arrange rq cs =
     (if cs = [] then []
      else if fits_window rq (assign_times rq (arrange cs)) then assign_times rq (arrange cs)
      else sequencer score arrange rq (drop_lowest score cs))"
  by pat_completeness auto
termination
  by (relation "measure (\<lambda>(score, arrange, rq, cs). length cs)") (auto simp: drop_lowest_shorter)

text \<open>
  Modelled from the spec: the items, the totals, the summary and the metadata of the
  result (sections 3 and 4.9).
\<close>

fun items_from :: "nat \<Rightarrow> (ActivityCandidate \<times> real) list \<Rightarrow> ItineraryItem list" where
  "items_from i [] = []"
| "items_from i ((c, s) # r) =
     \<lparr> activity_id = cid c,
       assigned_start_time = s,
       ItineraryItem.duration_hours = ActivityCandidate.duration_hours c,
       ItineraryItem.cost = ActivityCandidate.cost c,
       sequence_index = i,
       item_category = category c \<rparr>
     # items_from (Suc i) r"

definition to_items :: "(ActivityCandidate \<times> real) list \<Rightarrow> ItineraryItem list" where
  "to_items sched = items_from 0 sched"

text \<open>The end of an item's span.\<close>

definition item_end :: "ItineraryItem \<Rightarrow> real" where
  "item_end x = assigned_start_time x + ItineraryItem.duration_hours x"

definition empty_itinerary :: "plan_summary \<Rightarrow> nat \<Rightarrow> Itinerary" where
  "empty_itinerary why considered =
     \<lparr> items = [], total_duration_hours = 0, Itinerary.total_cost = 0,
       Itinerary.summary = why,
       Itinerary.metadata =
         \<lparr> PlanMetadata.activities_considered = considered,
           PlanMetadata.activities_selected = 0,
           PlanMetadata.activities_in_itinerary = 0,
           interests_covered = [], unvisited_places = 0 \<rparr> \<rparr>"

definition build_itinerary ::
    "nat \<Rightarrow> nat \<Rightarrow> (ActivityCandidate \<times> real) list \<Rightarrow> Itinerary" where
  "build_itinerary considered selected sched =
     \<lparr> items = to_items sched,
       total_duration_hours = sum_list (map ItineraryItem.duration_hours (to_items sched)),
       Itinerary.total_cost = sum_list (map ItineraryItem.cost (to_items sched)),
       Itinerary.summary =
         Planned (length (to_items sched))
           (sum_list (map ItineraryItem.duration_hours (to_items sched))),
       Itinerary.metadata =
         \<lparr> PlanMetadata.activities_considered = considered,
           PlanMetadata.activities_selected = selected,
           PlanMetadata.activities_in_itinerary = length (to_items sched),
           interests_covered = remdups (map (\<lambda>(c, s). category c) sched),
           unvisited_places = length (filter (\<lambda>(c, s). \<not> visited c) sched) \<rparr> \<rparr>"

text \<open>
  Modelled from the spec: the pipeline. An invalid request is rejected before any stage
  runs; an empty filtered pool and budget infeasibility give an empty itinerary with the
  summary that says so.
\<close>

definition plan ::
    "(real \<times> real \<Rightarrow> real \<times> real \<Rightarrow> real) \<Rightarrow> (ActivityCandidate \<Rightarrow> real)
      \<Rightarrow> (ActivityCandidate list \<Rightarrow> ActivityCandidate list)
      \<Rightarrow> PlanRequest \<Rightarrow> ActivityCandidate list \<Rightarrow> plan_error + Itinerary" where
  "plan dist_km score arrange rq pool =
     (if request_invalid rq then Inl InputInvalid
      else
        (let considered = constraint_filter dist_km rq pool;
             cats = normalize_interests (PlanRequest.interests rq)
         in if considered = [] then Inr (empty_itinerary NoCandidatesFound 0)
            else
              (let selected = coverage score cats considered;
                   capped = enforce_meal_cap score (meal_cap rq) selected
               in case budget_selector score (PlanRequest.budget rq) capped of
                    None \<Rightarrow> Inr (empty_itinerary BudgetInfeasible (length considered))
                  | Some fitted \<Rightarrow>
                      Inr (build_itinerary (length considered) (length selected)
                             (sequencer score arrange rq
                                (novelty_guarantee score rq cats considered fitted))))))"


text \<open>
  Modelled from the spec: InputInvalid (section 7) read on the fields of the filter
  panel: the window of two \<open>HH:MM\<close> strings, the distance field and the budget.
\<close>


definition is_digit :: "char \<Rightarrow> bool" where
  "is_digit c = (c \<in> set ''0123456789'')"

definition digit_val :: "char \<Rightarrow> nat" where
  "digit_val c = of_char c - 48"

definition digits_val :: "string \<Rightarrow> nat" where
  "digits_val ds = foldl (\<lambda>n c. 10 * n + digit_val c) 0 ds"

definition clock_minutes :: "string \<Rightarrow> nat option" where
  "clock_minutes s =
     (case s of
        [h1, h2, c, m1, m2] \<Rightarrow>
          if is_digit h1 \<and> is_digit h2 \<and> c = CHR '':'' \<and> is_digit m1 \<and> is_digit m2
          then Some (60 * digits_val [h1, h2] + digits_val [m1, m2]) else None
      | _ \<Rightarrow> None)"

definition window_malformed :: "string \<Rightarrow> string \<Rightarrow> bool" where
  "window_malformed s e =
     (case (clock_minutes s, clock_minutes e) of
        (Some a, Some b) \<Rightarrow> b \<le> a
      | _ \<Rightarrow> True)"

definition panel_input_invalid :: "engine \<Rightarrow> FilterState \<Rightarrow> bool" where
  "panel_input_invalid js filters =
     (window_malformed (time_start (time filters)) (time_end (time filters))
      \<or> js_lt (parseFloat js (distance filters)) (Number 0)
      \<or> js_lt (FilterState.budget filters) (Number 0))"

section \<open>Inputs used in the examples\<close>

text \<open>
  An engine for the examples. It does what a JavaScript engine does on the inputs that
  the examples give it, and is not meant beyond them: \<open>trim\<close> on strings without white
  space; \<open>parseFloat\<close> on the empty string and on strings of at most 15 decimal digits
  with an optional minus sign before them; the conversion to a string on numbers that are
  integers below 10^21 and on values that are not numbers; \<open>-\<close> on finite numbers whose
  difference is a binary64 number, so that no rounding takes place.
\<close>

definition read_number :: "string \<Rightarrow> jsnum" where
  "read_number s =
     (case s of
        [] \<Rightarrow> NaN
      | c # r \<Rightarrow>
          if c = CHR ''-'' then
            (if r \<noteq> [] \<and> list_all is_digit r then Number (- real (digits_val r)) else NaN)
          else if list_all is_digit s then Number (real (digits_val s))
          else NaN)"

fun digits_of :: "nat \<Rightarrow> string" where
  "digits_of n =
     (if n < 10 then [char_of (48 + n)]
      else digits_of (n div 10) @ [char_of (48 + n mod 10)])"

definition print_value :: "jsval \<Rightarrow> string" where
  "print_value v =
     (case v of
        JNum n \<Rightarrow>
          (case n of
             NaN \<Rightarrow> ''NaN''
           | Number r \<Rightarrow> (if r < 0 then ''-'' else '''') @ digits_of (nat \<lfloor>\<bar>r\<bar>\<rfloor>)
           | PosInf \<Rightarrow> ''Infinity''
           | NegInf \<Rightarrow> ''-Infinity'')
      | JStr s \<Rightarrow> s
      | JBool b \<Rightarrow> (if b then ''true'' else ''false'')
      | JNull \<Rightarrow> ''null''
      | JUndefined \<Rightarrow> ''undefined''
      | JObject \<Rightarrow> ''[object Object]'')"

definition exact_minus :: "jsval \<Rightarrow> jsval \<Rightarrow> jsnum" where
  "exact_minus a b =
     (case (a, b) of
        (JNum (Number x), JNum (Number y)) \<Rightarrow> Number (x - y)
      | _ \<Rightarrow> NaN)"

definition example_engine :: engine where
  "example_engine =
     \<lparr> trim = (\<lambda>s. s), parseFloat = read_number, toStr = print_value,
       js_minus = exact_minus \<rparr>"

text \<open>A location in Waterloo, at coordinates that are binary64 numbers.\<close>

definition waterloo :: GeoLocation where
  "waterloo = \<lparr> latitude = Number (87 / 2), longitude = Number (- 161 / 2) \<rparr>"

text \<open>States of the panel: the initial one with one field changed.\<close>

definition evening_to_morning :: FilterState where
  "evening_to_morning =
     initial_filters\<lparr>time := \<lparr> time_start = ''17:00'', time_end = ''09:00'' \<rparr>\<rparr>"

definition blank_distance :: FilterState where
  "blank_distance = initial_filters\<lparr>distance := ''''\<rparr>"

definition negative_distance :: FilterState where
  "negative_distance = initial_filters\<lparr>distance := ''-3''\<rparr>"

definition budget_120 :: FilterState where
  "budget_120 = initial_filters\<lparr>FilterState.budget := Number 120\<rparr>"

definition food_checked :: FilterState where
  "food_checked =
     initial_filters\<lparr>FilterState.interests :=
       \<lparr> shopping = False, food = True, entertainment = False, scenery = True \<rparr>\<rparr>"

definition indoor_checked :: FilterState where
  "indoor_checked = initial_filters\<lparr>indoorOutdoor := \<lparr> indoor = True, outdoor = False \<rparr>\<rparr>"

text \<open>A response with two activities.\<close>

definition museum :: SidequestActivity where
  "museum =
     \<lparr> SidequestActivity.title = ''Museum'',
       SidequestActivity.lat = JNum (Number 44), SidequestActivity.lon = JNum (Number (- 81)),
       SidequestActivity.start_time = Some ''10:00'',
       SidequestActivity.duration_hours = Number 2,
       SidequestActivity.cost = Some (Number 25), activity_type = ''entertainment'',
       SidequestActivity.indoor_outdoor = ''indoor'',
       SidequestActivity.energy_level = Number 5, SidequestActivity.confidence = Number (3 / 4) \<rparr>"

definition park :: SidequestActivity where
  "park =
     \<lparr> SidequestActivity.title = ''Park'',
       SidequestActivity.lat = JNum (Number 43), SidequestActivity.lon = JNum (Number (- 80)),
       SidequestActivity.start_time = Some ''12:00'',
       SidequestActivity.duration_hours = Number 1,
       SidequestActivity.cost = None, activity_type = ''scenery'',
       SidequestActivity.indoor_outdoor = ''outdoor'',
       SidequestActivity.energy_level = Number 3, SidequestActivity.confidence = Number (1 / 2) \<rparr>"

definition two_stop_response :: SidequestResponse where
  "two_stop_response =
     \<lparr> itinerary = [museum, park], total_duration = Number 3,
       SidequestResponse.total_cost = Number 25,
       SidequestResponse.summary = ''Your 3-hour sidequest'',
       SidequestResponse.metadata =
         \<lparr> ResponseMetadata.activities_considered = Number 50,
           ResponseMetadata.activities_selected = Number 2,
           ResponseMetadata.activities_in_itinerary = Number 2,
           generation_time = None \<rparr> \<rparr>"

text \<open>
  Stops of a route: the placeholder that \<open>addStop\<close> creates, a stop at the user's
  location, a stop whose coordinates arrived as strings, a stop with a NaN, and two
  places.
\<close>

definition placeholder_stop :: PlaceStop where
  "placeholder_stop =
     \<lparr> place_id = ''tmp_0'', name = ''New stop'', address = [],
       PlaceStop.lat = JNum (Number 0), lng = JNum (Number 0), types = None \<rparr>"

definition stop_at_origin :: PlaceStop where
  "stop_at_origin =
     \<lparr> place_id = ''a'', name = ''Here'', address = [],
       PlaceStop.lat = JNum (Number (87 / 2)), lng = JNum (Number (- 161 / 2)), types = None \<rparr>"

definition text_stop :: PlaceStop where
  "text_stop =
     \<lparr> place_id = ''b'', name = ''Cafe'', address = [],
       PlaceStop.lat = JStr ''43.75'', lng = JStr ''-80.25'', types = None \<rparr>"

definition nan_stop :: PlaceStop where
  "nan_stop =
     \<lparr> place_id = ''c'', name = ''Nowhere'', address = [],
       PlaceStop.lat = JNum NaN, lng = JNum (Number (- 80)), types = None \<rparr>"

definition museum_stop :: PlaceStop where
  "museum_stop =
     \<lparr> place_id = ''d'', name = ''Museum'', address = [],
       PlaceStop.lat = JNum (Number 44), lng = JNum (Number (- 81)), types = None \<rparr>"

definition park_stop :: PlaceStop where
  "park_stop =
     \<lparr> place_id = ''e'', name = ''Park'', address = [],
       PlaceStop.lat = JNum (Number 43), lng = JNum (Number (- 80)), types = None \<rparr>"

definition one_point_context :: RouteContext where
  "one_point_context =
     \<lparr> userLocation = Some waterloo, stops = [placeholder_stop, stop_at_origin], waypoints = [] \<rparr>"

definition three_point_context :: RouteContext where
  "three_point_context =
     \<lparr> userLocation = Some waterloo,
       stops = [placeholder_stop, stop_at_origin, text_stop, museum_stop, museum_stop,
                nan_stop, park_stop],
       waypoints = [] \<rparr>"

text \<open>
  Stand-ins for the three parameters of the planner, and the full-day request of the
  server's examples (09:00 to 17:00, budget 200) with a small pool.
\<close>

definition flat_km :: "real \<times> real \<Rightarrow> real \<times> real \<Rightarrow> real" where
  "flat_km a b = 111 * (\<bar>fst a - fst b\<bar> + \<bar>snd a - snd b\<bar>)"

definition by_confidence :: "ActivityCandidate \<Rightarrow> real" where
  "by_confidence c = ActivityCandidate.confidence c"

definition as_given :: "ActivityCandidate list \<Rightarrow> ActivityCandidate list" where
  "as_given cs = cs"

definition day_request :: PlanRequest where
  "day_request =
     \<lparr> origin = (434643 / 10000, - 805204 / 10000), radius_km = 10,
       PlanRequest.start_time = 9, PlanRequest.end_time = 17,
       PlanRequest.budget = Some 200,
       PlanRequest.interests = [''meals'', ''entertainment'', ''scenery'', ''shopping''],
       PlanRequest.energy = 7, PlanRequest.indoor_outdoor = Some Mixed,
       PlanRequest.user_id = ''test_user_1'' \<rparr>"

definition diner :: ActivityCandidate where
  "diner =
     \<lparr> cid = 1, ActivityCandidate.title = ''Diner'', location = (4347 / 100, - 8052 / 100),
       category = Meals, ActivityCandidate.cost = 30, ActivityCandidate.duration_hours = 3 / 2,
       ActivityCandidate.energy_level = 2, ActivityCandidate.indoor_outdoor = Indoor,
       ActivityCandidate.confidence = 4 / 5, open_interval = Some (11, 15), visited = True \<rparr>"

definition cinema :: ActivityCandidate where
  "cinema =
     \<lparr> cid = 2, ActivityCandidate.title = ''Cinema'', location = (4346 / 100, - 8053 / 100),
       category = Entertainment, ActivityCandidate.cost = 20,
       ActivityCandidate.duration_hours = 2,
       ActivityCandidate.energy_level = 3, ActivityCandidate.indoor_outdoor = Indoor,
       ActivityCandidate.confidence = 9 / 10, open_interval = None, visited = True \<rparr>"

definition lookout :: ActivityCandidate where
  "lookout =
     \<lparr> cid = 3, ActivityCandidate.title = ''Lookout'', location = (4345 / 100, - 8051 / 100),
       category = Scenery, ActivityCandidate.cost = 0, ActivityCandidate.duration_hours = 1,
       ActivityCandidate.energy_level = 6, ActivityCandidate.indoor_outdoor = Outdoor,
       ActivityCandidate.confidence = 7 / 10, open_interval = None, visited = False \<rparr>"

definition mall :: ActivityCandidate where
  "mall =
     \<lparr> cid = 4, ActivityCandidate.title = ''Mall'', location = (4348 / 100, - 8054 / 100),
       category = Shopping, ActivityCandidate.cost = 150, ActivityCandidate.duration_hours = 5,
       ActivityCandidate.energy_level = 4, ActivityCandidate.indoor_outdoor = Indoor,
       ActivityCandidate.confidence = 3 / 5, open_interval = None, visited = True \<rparr>"

definition arena :: ActivityCandidate where
  "arena =
     \<lparr> cid = 5, ActivityCandidate.title = ''Arena'', location = (445 / 10, - 8052 / 100),
       category = Entertainment, ActivityCandidate.cost = 60,
       ActivityCandidate.duration_hours = 3,
       ActivityCandidate.energy_level = 5, ActivityCandidate.indoor_outdoor = Indoor,
       ActivityCandidate.confidence = 1, open_interval = None, visited = False \<rparr>"

definition day_pool :: "ActivityCandidate list" where
  "day_pool = [mall, arena, diner, lookout, cinema]"

text \<open>What the planner returns for the full-day request and the pool.\<close>

definition full_day_itinerary :: Itinerary where
  "full_day_itinerary =
     \<lparr> items =
         [\<lparr> activity_id = 1, assigned_start_time = 9, ItineraryItem.duration_hours = 3 / 2,
            ItineraryItem.cost = 30, sequence_index = 0, item_category = Meals \<rparr>,
          \<lparr> activity_id = 2, assigned_start_time = 21 / 2, ItineraryItem.duration_hours = 2,
            ItineraryItem.cost = 20, sequence_index = 1, item_category = Entertainment \<rparr>,
          \<lparr> activity_id = 3, assigned_start_time = 25 / 2, ItineraryItem.duration_hours = 1,
            ItineraryItem.cost = 0, sequence_index = 2, item_category = Scenery \<rparr>],
       total_duration_hours = 9 / 2, Itinerary.total_cost = 50,
       Itinerary.summary = Planned 3 (9 / 2),
       Itinerary.metadata =
         \<lparr> PlanMetadata.activities_considered = 4, PlanMetadata.activities_selected = 4,
           PlanMetadata.activities_in_itinerary = 3,
           interests_covered = [Meals, Entertainment, Scenery], unvisited_places = 1 \<rparr> \<rparr>"











section \<open>The filter panel: what it sends\<close>

text \<open>
  The literal is a binary64 number (53 significant bits) and lies within half a unit in
  the last place of 1/100000.
\<close>

lemma lit_1e_5_nearest:
  "lit_1e_5 = Number (5902958103587057 / 2 ^ 69)
   \<and> (2::nat) ^ 52 \<le> 5902958103587057 \<and> (5902958103587057::nat) < 2 ^ 53
   \<and> \<bar>5902958103587057 / 2 ^ 69 - 1 / 100000 :: real\<bar> < 1 / 2 ^ 70"
  by (simp add: lit_1e_5_def abs_if field_simps)

lemma map_pair_zip: "map (\<lambda>s. (f s, g s)) xs = zip (map f xs) (map g xs)"
  by (induction xs) auto

lemma request_Some:
  assumes "request (handleGenerateSidequest js f geo server c) = Some r"
  shows "trim js (distance f) \<noteq> [] \<and> \<not> isNaN (parseFloat js (distance f))
         \<and> \<not> js_lt (parseFloat js (distance f)) (Number 0)
         \<and> (\<exists>loc. geo = Inr loc \<and> r = sidequestData f loc (parseFloat js (distance f)))"
  using assms
  by (auto simp: handleGenerateSidequest_def Let_def split: if_splits sum.splits reply.splits)

lemma request_issued:
  assumes "trim js (distance f) \<noteq> []" "\<not> isNaN (parseFloat js (distance f))"
    "\<not> js_lt (parseFloat js (distance f)) (Number 0)"
  shows "request (handleGenerateSidequest js f (Inr loc) server c)
         = Some (sidequestData f loc (parseFloat js (distance f)))"
  using assms
  by (auto simp: handleGenerateSidequest_def Let_def split: reply.splits)

lemma request_None_Inl:
  "request (handleGenerateSidequest js f (Inl e) server c) = None"
  by (auto simp: handleGenerateSidequest_def Let_def)

lemma example_reads:
  "trim example_engine ''5'' = ''5''"
  "parseFloat example_engine ''5'' = Number 5"
  "trim example_engine '''' = ''''"
  "trim example_engine ''-3'' = ''-3''"
  "parseFloat example_engine ''-3'' = Number (- 3)"
  "parseFloat example_engine '''' = NaN"
  by (simp_all add: example_engine_def read_number_def is_digit_def digits_val_def digit_val_def)

lemma request_distance_5:
  assumes "distance f = ''5''"
  shows "request (handleGenerateSidequest example_engine f (Inr loc) server c)
         = Some (sidequestData f loc (Number 5))"
  using request_issued[of example_engine f loc server c]
  by (simp add: assms example_reads isNaN_def)

lemma ctx_on_ok:
  assumes "request (handleGenerateSidequest js f (Inr loc) server c) = Some r"
    and "server r = Ok result"
  shows "ctx (handleGenerateSidequest js f (Inr loc) server c)
         = onResponseOk js loc result (c\<lparr>userLocation := Some loc\<rparr>)"
proof -
  from request_Some[OF assms(1)]
  have r: "r = sidequestData f loc (parseFloat js (distance f))"
    and ok: "trim js (distance f) \<noteq> []" "\<not> isNaN (parseFloat js (distance f))"
      "\<not> js_lt (parseFloat js (distance f)) (Number 0)"
    by auto
  with assms(2) show ?thesis
    by (simp add: handleGenerateSidequest_def Let_def)
qed

lemma map_enumerate_snd:
  "map (\<lambda>(i, a). h a) (enumerate n xs) = map h xs"
  by (induction xs arbitrary: n) auto

lemma stops_onResponseOk:
  "map name (stops (onResponseOk js loc result c))
     = map SidequestActivity.title (itinerary result)"
  "map lng (stops (onResponseOk js loc result c))
     = map SidequestActivity.lon (itinerary result)"
  "map PlaceStop.lat (stops (onResponseOk js loc result c))
     = map SidequestActivity.lat (itinerary result)"
  "waypoints (onResponseOk js loc result c)
     = (JNum (longitude loc), JNum (latitude loc))
       # map (\<lambda>s. (lng s, PlaceStop.lat s)) (stops (onResponseOk js loc result c))"
  "length (stops (onResponseOk js loc result c)) = length (itinerary result)"
  by (simp_all add: onResponseOk_def Let_def mapActivityToPlaceStop_def case_prod_beta comp_def
      map_enumerate_snd[unfolded case_prod_beta])

text \<open>
  C7. After a successful response the stops are the itinerary's items, one for one and in
  order, each with the item's title as its name and the item's lon and lat as its lng
  and lat; the waypoints are the user's location followed by the stops' coordinates, so
  one more than there are items.
\<close>

theorem stops_follow_itinerary:
  assumes "request (handleGenerateSidequest js f (Inr loc) server c) = Some r"
    and "server r = Ok result"
  shows "map name (stops (ctx (handleGenerateSidequest js f (Inr loc) server c)))
           = map SidequestActivity.title (itinerary result)
       \<and> map lng (stops (ctx (handleGenerateSidequest js f (Inr loc) server c)))
           = map SidequestActivity.lon (itinerary result)
       \<and> map PlaceStop.lat (stops (ctx (handleGenerateSidequest js f (Inr loc) server c)))
           = map SidequestActivity.lat (itinerary result)
       \<and> waypoints (ctx (handleGenerateSidequest js f (Inr loc) server c))
           = (JNum (longitude loc), JNum (latitude loc))
             # map (\<lambda>s. (lng s, PlaceStop.lat s))
                 (stops (ctx (handleGenerateSidequest js f (Inr loc) server c)))
       \<and> length (stops (ctx (handleGenerateSidequest js f (Inr loc) server c)))
           = length (itinerary result)
       \<and> length (waypoints (ctx (handleGenerateSidequest js f (Inr loc) server c)))
           = length (itinerary result) + 1"
  unfolding ctx_on_ok[OF assms]
  by (simp add: stops_onResponseOk)

theorem stops_follow_itinerary_witness:
  "request (handleGenerateSidequest example_engine initial_filters (Inr waterloo)
      (\<lambda>r. Ok two_stop_response) empty_context)
     = Some (sidequestData initial_filters waterloo (Number 5))
   \<and> map name (stops (ctx (handleGenerateSidequest example_engine initial_filters
        (Inr waterloo) (\<lambda>r. Ok two_stop_response) empty_context)))
     = [''Museum'', ''Park'']
   \<and> waypoints (ctx (handleGenerateSidequest example_engine initial_filters
        (Inr waterloo) (\<lambda>r. Ok two_stop_response) empty_context))
     = [(JNum (Number (- 161 / 2)), JNum (Number (87 / 2))),
        (JNum (Number (- 81)), JNum (Number 44)),
        (JNum (Number (- 80)), JNum (Number 43))]"
proof -
  have sent: "request (handleGenerateSidequest example_engine initial_filters (Inr waterloo)
      (\<lambda>r. Ok two_stop_response) empty_context)
     = Some (sidequestData initial_filters waterloo (Number 5))"
    by (rule request_distance_5) (simp add: initial_filters_def)
  have answered: "(\<lambda>r. Ok two_stop_response) (sidequestData initial_filters waterloo (Number 5))
     = Ok two_stop_response"
    by simp
  let ?c = "ctx (handleGenerateSidequest example_engine initial_filters
        (Inr waterloo) (\<lambda>r. Ok two_stop_response) empty_context)"
  from stops_follow_itinerary[OF sent answered]
  have names: "map name (stops ?c) = map SidequestActivity.title (itinerary two_stop_response)"
    and lngs: "map lng (stops ?c) = map SidequestActivity.lon (itinerary two_stop_response)"
    and lats: "map PlaceStop.lat (stops ?c)
                 = map SidequestActivity.lat (itinerary two_stop_response)"
    and wps: "waypoints ?c
                 = (JNum (longitude waterloo), JNum (latitude waterloo))
                   # map (\<lambda>s. (lng s, PlaceStop.lat s)) (stops ?c)"
    by simp_all
  have "map (\<lambda>s. (lng s, PlaceStop.lat s)) (stops ?c)
          = zip (map lng (stops ?c)) (map PlaceStop.lat (stops ?c))"
    by (rule map_pair_zip)
  also have "\<dots> = [(JNum (Number (- 81)), JNum (Number 44)),
                    (JNum (Number (- 80)), JNum (Number 43))]"
    unfolding lngs lats by (simp add: two_stop_response_def museum_def park_def)
  finally have "waypoints ?c
     = [(JNum (Number (- 161 / 2)), JNum (Number (87 / 2))),
        (JNum (Number (- 81)), JNum (Number 44)),
        (JNum (Number (- 80)), JNum (Number 43))]"
    unfolding wps by (simp add: waterloo_def)
  moreover from names have "map name (stops ?c) = [''Museum'', ''Park'']"
    by (simp add: two_stop_response_def museum_def park_def)
  ultimately show ?thesis using sent by simp
qed

text \<open>
  C8. The interests of a request that the panel issues are among shopping, food,
  entertainment and scenery; meals, bites and physical_activity never occur, and food is
  not one of the names of the closed category set.
\<close>

theorem interests_from_checkboxes:
  assumes "request (handleGenerateSidequest js f geo server c) = Some r"
  shows "set (SidequestRequest.interests r)
           \<subseteq> {''shopping'', ''food'', ''entertainment'', ''scenery''}
       \<and> ''meals'' \<notin> set (SidequestRequest.interests r)
       \<and> ''bites'' \<notin> set (SidequestRequest.interests r)
       \<and> ''physical_activity'' \<notin> set (SidequestRequest.interests r)
       \<and> ''food'' \<notin> set category_names"
proof -
  from request_Some[OF assms] obtain loc where
    r: "r = sidequestData f loc (parseFloat js (distance f))" by auto
  have sub: "set (selectedInterests f) \<subseteq> {''shopping'', ''food'', ''entertainment'', ''scenery''}"
    by (auto simp: selectedInterests_def)
  then have "''meals'' \<notin> set (selectedInterests f)" "''bites'' \<notin> set (selectedInterests f)"
    "''physical_activity'' \<notin> set (selectedInterests f)"
    by auto
  moreover have "''food'' \<notin> set category_names"
    by (simp add: category_names_def category_table_def)
  ultimately show ?thesis using sub by (simp add: r sidequestData_def)
qed

theorem interests_from_checkboxes_witness:
  "request (handleGenerateSidequest example_engine food_checked (Inr waterloo)
      (\<lambda>r. FetchError) empty_context)
     = Some (sidequestData food_checked waterloo (Number 5))
   \<and> SidequestRequest.interests (sidequestData food_checked waterloo (Number 5))
     = [''food'', ''scenery'']
   \<and> ''meals'' \<notin> set (SidequestRequest.interests (sidequestData food_checked waterloo (Number 5)))"
proof -
  have sent: "request (handleGenerateSidequest example_engine food_checked (Inr waterloo)
      (\<lambda>r. FetchError) empty_context)
     = Some (sidequestData food_checked waterloo (Number 5))"
    by (rule request_distance_5) (simp add: food_checked_def initial_filters_def)
  from interests_from_checkboxes[OF sent] sent show ?thesis
    by (simp add: sidequestData_def selectedInterests_def food_checked_def initial_filters_def)
qed

text \<open>
  C9. In a request that the panel issues, indoor_outdoor is "indoor" exactly when only
  the indoor box is checked, "outdoor" exactly when only the outdoor box is checked, and
  null exactly when both boxes or neither is checked; it is never "mixed".
\<close>

theorem indoor_outdoor_field:
  assumes "request (handleGenerateSidequest js f geo server c) = Some r"
  shows "(SidequestRequest.indoor_outdoor r = Some ''indoor'')
           = (indoor (indoorOutdoor f) \<and> \<not> outdoor (indoorOutdoor f))
       \<and> (SidequestRequest.indoor_outdoor r = Some ''outdoor'')
           = (outdoor (indoorOutdoor f) \<and> \<not> indoor (indoorOutdoor f))
       \<and> (SidequestRequest.indoor_outdoor r = None)
           = (indoor (indoorOutdoor f) = outdoor (indoorOutdoor f))
       \<and> SidequestRequest.indoor_outdoor r \<noteq> Some ''mixed''"
proof -
  from request_Some[OF assms] obtain loc where
    r: "r = sidequestData f loc (parseFloat js (distance f))" by auto
  show ?thesis
    by (auto simp: r sidequestData_def selectedIndoorOutdoor_def)
qed

theorem indoor_outdoor_field_witness:
  "request (handleGenerateSidequest example_engine indoor_checked (Inr waterloo)
      (\<lambda>r. FetchError) empty_context)
     = Some (sidequestData indoor_checked waterloo (Number 5))
   \<and> SidequestRequest.indoor_outdoor (sidequestData indoor_checked waterloo (Number 5))
     = Some ''indoor''
   \<and> indoor (indoorOutdoor indoor_checked) \<and> \<not> outdoor (indoorOutdoor indoor_checked)"
proof -
  have sent: "request (handleGenerateSidequest example_engine indoor_checked (Inr waterloo)
      (\<lambda>r. FetchError) empty_context)
     = Some (sidequestData indoor_checked waterloo (Number 5))"
    by (rule request_distance_5) (simp add: indoor_checked_def initial_filters_def)
  from indoor_outdoor_field[OF sent] sent show ?thesis
    by (simp add: indoor_checked_def initial_filters_def)
qed

text \<open>
  C4, as the panel has it. A request is issued exactly when the distance field is not
  blank after \<open>trim\<close>, \<open>parseFloat\<close> reads it as a number that is neither NaN nor negative,
  and the location lookup succeeds. So an input with a negative distance is rejected
  before any request is issued, and the distance of an issued request is not negative.
  No issued request carries a negative budget either: the budget is sent only when it is
  greater than 0, and as null otherwise. The time window is not looked at: start and end
  are sent as entered.
\<close>

theorem request_issued_iff:
  "(request (handleGenerateSidequest js f geo server c) \<noteq> None)
     = (trim js (distance f) \<noteq> [] \<and> \<not> isNaN (parseFloat js (distance f))
        \<and> \<not> js_lt (parseFloat js (distance f)) (Number 0) \<and> (\<exists>loc. geo = Inr loc))
   \<and> (js_lt (parseFloat js (distance f)) (Number 0)
        \<longrightarrow> request (handleGenerateSidequest js f geo server c) = None)
   \<and> (\<forall>r. request (handleGenerateSidequest js f geo server c) = Some r \<longrightarrow>
         SidequestRequest.start_time r = time_start (time f)
       \<and> SidequestRequest.end_time r = time_end (time f)
       \<and> travel_distance r = parseFloat js (distance f)
       \<and> \<not> js_lt (travel_distance r) (Number 0)
       \<and> SidequestRequest.budget r
           = (if js_gt (FilterState.budget f) (Number 0) then Some (FilterState.budget f)
              else None)
       \<and> (\<forall>b. SidequestRequest.budget r = Some b \<longrightarrow> js_gt b (Number 0)))"
proof (intro conjI allI impI)
  show iff: "(request (handleGenerateSidequest js f geo server c) \<noteq> None)
     = (trim js (distance f) \<noteq> [] \<and> \<not> isNaN (parseFloat js (distance f))
        \<and> \<not> js_lt (parseFloat js (distance f)) (Number 0) \<and> (\<exists>loc. geo = Inr loc))"
    using request_Some[of js f geo server c] request_issued[of js f _ server c]
    by (cases geo) (auto simp: request_None_Inl)
  assume "js_lt (parseFloat js (distance f)) (Number 0)"
  with iff show "request (handleGenerateSidequest js f geo server c) = None"
    by blast
next
  fix r assume a: "request (handleGenerateSidequest js f geo server c) = Some r"
  from request_Some[OF a] obtain loc where
    r: "r = sidequestData f loc (parseFloat js (distance f))"
    and d: "\<not> js_lt (parseFloat js (distance f)) (Number 0)" by auto
  show "SidequestRequest.start_time r = time_start (time f)"
    by (simp add: r sidequestData_def)
  show "SidequestRequest.end_time r = time_end (time f)"
    by (simp add: r sidequestData_def)
  show "travel_distance r = parseFloat js (distance f)"
    by (simp add: r sidequestData_def)
  with d show "\<not> js_lt (travel_distance r) (Number 0)"
    by simp
  show "SidequestRequest.budget r
           = (if js_gt (FilterState.budget f) (Number 0) then Some (FilterState.budget f)
              else None)"
    by (simp add: r sidequestData_def)
  fix b assume "SidequestRequest.budget r = Some b"
  then show "js_gt b (Number 0)"
    by (simp add: r sidequestData_def split: if_splits)
qed

theorem request_issued_iff_witness:
  "request (handleGenerateSidequest example_engine evening_to_morning (Inr waterloo)
      (\<lambda>r. FetchError) empty_context)
     = Some (sidequestData evening_to_morning waterloo (Number 5))
   \<and> SidequestRequest.start_time (sidequestData evening_to_morning waterloo (Number 5)) = ''17:00''
   \<and> SidequestRequest.end_time (sidequestData evening_to_morning waterloo (Number 5)) = ''09:00''
   \<and> SidequestRequest.budget (sidequestData evening_to_morning waterloo (Number 5)) = None
   \<and> js_lt (parseFloat example_engine (distance negative_distance)) (Number 0)
   \<and> request (handleGenerateSidequest example_engine negative_distance (Inr waterloo)
        (\<lambda>r. FetchError) empty_context) = None
   \<and> request (handleGenerateSidequest example_engine budget_120 (Inr waterloo)
        (\<lambda>r. FetchError) empty_context)
     = Some (sidequestData budget_120 waterloo (Number 5))
   \<and> SidequestRequest.budget (sidequestData budget_120 waterloo (Number 5)) = Some (Number 120)
   \<and> js_gt (Number 120) (Number 0)"
proof -
  have sent: "request (handleGenerateSidequest example_engine evening_to_morning (Inr waterloo)
      (\<lambda>r. FetchError) empty_context)
     = Some (sidequestData evening_to_morning waterloo (Number 5))"
    by (rule request_distance_5) (simp add: evening_to_morning_def initial_filters_def)
  have sent_120: "request (handleGenerateSidequest example_engine budget_120 (Inr waterloo)
      (\<lambda>r. FetchError) empty_context)
     = Some (sidequestData budget_120 waterloo (Number 5))"
    by (rule request_distance_5) (simp add: budget_120_def initial_filters_def)
  have negative: "js_lt (parseFloat example_engine (distance negative_distance)) (Number 0)"
    by (simp add: negative_distance_def example_reads)
  from request_issued_iff[of example_engine evening_to_morning "Inr waterloo" "\<lambda>r. FetchError"
      empty_context] sent
  have "SidequestRequest.start_time (sidequestData evening_to_morning waterloo (Number 5))
          = ''17:00''
      \<and> SidequestRequest.end_time (sidequestData evening_to_morning waterloo (Number 5))
          = ''09:00''
      \<and> SidequestRequest.budget (sidequestData evening_to_morning waterloo (Number 5)) = None"
    by (simp add: evening_to_morning_def initial_filters_def js_gt_def)
  moreover from request_issued_iff[of example_engine negative_distance "Inr waterloo"
      "\<lambda>r. FetchError" empty_context] negative
  have "request (handleGenerateSidequest example_engine negative_distance (Inr waterloo)
        (\<lambda>r. FetchError) empty_context) = None"
    by blast
  moreover from request_issued_iff[of example_engine budget_120 "Inr waterloo" "\<lambda>r. FetchError"
      empty_context] sent_120
  have "SidequestRequest.budget (sidequestData budget_120 waterloo (Number 5))
          = Some (Number 120) \<and> js_gt (Number 120) (Number 0)"
    by (simp add: budget_120_def initial_filters_def js_gt_def)
  ultimately show ?thesis using sent sent_120 negative by simp
qed

text \<open>
  The inputs at which C4 fails as stated. The window from 17:00 to 09:00 is one that the
  specification calls invalid, and the request is issued all the same. A blank distance
  field is not one of the inputs that the specification calls invalid, and no request
  is issued for it.
\<close>

theorem malformed_window_is_sent:
  "panel_input_invalid example_engine evening_to_morning
   \<and> request (handleGenerateSidequest example_engine evening_to_morning (Inr waterloo)
        (\<lambda>r. FetchError) empty_context)
     = Some (sidequestData evening_to_morning waterloo (Number 5))
   \<and> SidequestRequest.start_time (sidequestData evening_to_morning waterloo (Number 5)) = ''17:00''
   \<and> SidequestRequest.end_time (sidequestData evening_to_morning waterloo (Number 5)) = ''09:00''
   \<and> \<not> panel_input_invalid example_engine blank_distance
   \<and> request (handleGenerateSidequest example_engine blank_distance (Inr waterloo)
        (\<lambda>r. FetchError) empty_context) = None"
proof -
  have "panel_input_invalid example_engine evening_to_morning"
    by (simp add: panel_input_invalid_def evening_to_morning_def initial_filters_def
        window_malformed_def clock_minutes_def is_digit_def digits_val_def digit_val_def)
  moreover have "request (handleGenerateSidequest example_engine evening_to_morning
      (Inr waterloo) (\<lambda>r. FetchError) empty_context)
     = Some (sidequestData evening_to_morning waterloo (Number 5))"
    by (rule request_distance_5) (simp add: evening_to_morning_def initial_filters_def)
  moreover have "SidequestRequest.start_time (sidequestData evening_to_morning waterloo (Number 5))
      = ''17:00''"
    "SidequestRequest.end_time (sidequestData evening_to_morning waterloo (Number 5)) = ''09:00''"
    by (simp_all add: sidequestData_def evening_to_morning_def)
  moreover have "\<not> panel_input_invalid example_engine blank_distance"
    by (simp add: panel_input_invalid_def blank_distance_def initial_filters_def example_reads
        window_malformed_def clock_minutes_def is_digit_def digits_val_def digit_val_def)
  moreover have "request (handleGenerateSidequest example_engine blank_distance (Inr waterloo)
        (\<lambda>r. FetchError) empty_context) = None"
    by (simp add: handleGenerateSidequest_def blank_distance_def example_reads)
  ultimately show ?thesis by simp
qed

section \<open>The route planning panel: the points of a route\<close>

lemma push_stops_shape:
  "\<exists>rest. push_stops js pts ss = pts @ rest
     \<and> subseq rest (map (\<lambda>s. (lng s, PlaceStop.lat s)) (filter has_coordinates ss))"
proof (induction ss arbitrary: pts)
  case Nil
  then show ?case by simp
next
  case (Cons s ss)
  show ?case
  proof (cases "has_coordinates s")
    case False
    with Cons[of pts] show ?thesis by simp
  next
    case True
    show ?thesis
    proof (cases "pts = [] \<or> \<not> nearlySame js (last pts) (lng s, PlaceStop.lat s)")
      case push: True
      from Cons[of "pts @ [(lng s, PlaceStop.lat s)]"] obtain rest where
        "push_stops js (pts @ [(lng s, PlaceStop.lat s)]) ss
           = (pts @ [(lng s, PlaceStop.lat s)]) @ rest"
        "subseq rest (map (\<lambda>s. (lng s, PlaceStop.lat s)) (filter has_coordinates ss))"
        by blast
      with True push show ?thesis
        by (intro exI[of _ "(lng s, PlaceStop.lat s) # rest"]) (auto simp: Let_def)
    next
      case skip: False
      from Cons[of pts] obtain rest where
        "push_stops js pts ss = pts @ rest"
        "subseq rest (map (\<lambda>s. (lng s, PlaceStop.lat s)) (filter has_coordinates ss))"
        by blast
      with True skip show ?thesis
        by (intro exI[of _ rest]) (auto simp: Let_def)
    qed
  qed
qed

lemma push_stops_keeps: "set pts \<subseteq> set (push_stops js pts ss)"
proof -
  from push_stops_shape[of js pts ss] obtain rest where "push_stops js pts ss = pts @ rest"
    by blast
  then show ?thesis by simp
qed

lemma push_stops_covers:
  assumes "s \<in> set ss" and "has_coordinates s"
  shows "\<exists>p\<in>set (push_stops js pts ss).
           p = (lng s, PlaceStop.lat s) \<or> nearlySame js p (lng s, PlaceStop.lat s)"
  using assms(1)
proof (induction ss arbitrary: pts)
  case Nil
  then show ?case by simp
next
  case (Cons a ss)
  show ?case
  proof (cases "s = a")
    case True
    show ?thesis
    proof (cases "pts = [] \<or> \<not> nearlySame js (last pts) (lng s, PlaceStop.lat s)")
      case push: True
      have "(lng s, PlaceStop.lat s) \<in> set (pts @ [(lng s, PlaceStop.lat s)])" by simp
      with push_stops_keeps[of "pts @ [(lng s, PlaceStop.lat s)]" js ss]
      have "(lng s, PlaceStop.lat s) \<in> set (push_stops js (pts @ [(lng s, PlaceStop.lat s)]) ss)"
        by blast
      moreover from True push assms(2)
      have "push_stops js pts (a # ss) = push_stops js (pts @ [(lng s, PlaceStop.lat s)]) ss"
        by (simp add: Let_def)
      ultimately show ?thesis by auto
    next
      case skip: False
      then have "last pts \<in> set pts" "nearlySame js (last pts) (lng s, PlaceStop.lat s)"
        by simp_all
      moreover from True skip assms(2)
      have "push_stops js pts (a # ss) = push_stops js pts ss"
        by (simp add: Let_def)
      ultimately show ?thesis using push_stops_keeps[of pts js ss] by auto
    qed
  next
    case False
    with Cons.prems have "s \<in> set ss" by simp
    from Cons.IH[OF this]
    have "\<exists>p\<in>set (push_stops js pts' ss).
           p = (lng s, PlaceStop.lat s) \<or> nearlySame js p (lng s, PlaceStop.lat s)" for pts'
      by blast
    then show ?thesis by (simp add: Let_def)
  qed
qed

lemma push_stops_successively:
  "successively (\<lambda>p q. \<not> nearlySame js p q) pts
   \<Longrightarrow> successively (\<lambda>p q. \<not> nearlySame js p q) (push_stops js pts ss)"
proof (induction ss arbitrary: pts)
  case Nil
  then show ?case by simp
next
  case (Cons s ss)
  then show ?case
    by (auto simp: Let_def successively_append_iff)
qed

lemma successively_nth:
  "successively P xs \<Longrightarrow> Suc i < length xs \<Longrightarrow> P (xs ! i) (xs ! Suc i)"
proof (induction P xs arbitrary: i rule: successively.induct)
  case (3 P x y xs)
  then show ?case by (cases i) auto
qed auto

text \<open>
  C10. The points that buildPoints returns begin with the user's location when one is
  set; the rest are coordinates of stops that pass the test (lng and lat are of type
  number, not NaN and not both zero), in the order of the stops; every stop that passes
  the test is in the list or is nearly the same as a point of the list; no two
  consecutive points are nearly the same (the differences of lng and of lat both less
  than 1e-5 in absolute value). With fewer than two points handleStart sets an error and
  requests no directions; with two or more, and a token, it requests directions for
  exactly these points.
\<close>

theorem buildPoints_wellformed:
  "(\<exists>rest. buildPoints js c
        = (case userLocation c of None \<Rightarrow> []
           | Some u \<Rightarrow> [(JNum (longitude u), JNum (latitude u))]) @ rest
      \<and> subseq rest (map (\<lambda>s. (lng s, PlaceStop.lat s)) (filter has_coordinates (stops c))))
   \<and> (\<forall>s\<in>set (stops c). has_coordinates s
         \<longrightarrow> (\<exists>p\<in>set (buildPoints js c).
                p = (lng s, PlaceStop.lat s) \<or> nearlySame js p (lng s, PlaceStop.lat s)))
   \<and> (\<forall>i. Suc i < length (buildPoints js c)
         \<longrightarrow> \<not> nearlySame js (buildPoints js c ! i) (buildPoints js c ! Suc i))
   \<and> (length (buildPoints js c) < 2 \<longrightarrow> (\<exists>msg. handleStart js env prof c = ErrorSet msg))
   \<and> (2 \<le> length (buildPoints js c) \<and> env = Some token \<and> token \<noteq> []
        \<and> token \<noteq> ''YOUR_MAPBOX_TOKEN_HERE''
      \<longrightarrow> handleStart js env prof c = DirectionsRequested prof (buildPoints js c))"
proof (intro conjI allI impI ballI)
  show "\<exists>rest. buildPoints js c
        = (case userLocation c of None \<Rightarrow> []
           | Some u \<Rightarrow> [(JNum (longitude u), JNum (latitude u))]) @ rest
      \<and> subseq rest (map (\<lambda>s. (lng s, PlaceStop.lat s)) (filter has_coordinates (stops c)))"
    unfolding buildPoints_def by (rule push_stops_shape)
next
  fix s assume "s \<in> set (stops c)" "has_coordinates s"
  then show "\<exists>p\<in>set (buildPoints js c).
                p = (lng s, PlaceStop.lat s) \<or> nearlySame js p (lng s, PlaceStop.lat s)"
    unfolding buildPoints_def by (rule push_stops_covers)
next
  fix i assume "Suc i < length (buildPoints js c)"
  moreover have "successively (\<lambda>p q. \<not> nearlySame js p q) (buildPoints js c)"
    unfolding buildPoints_def
    by (rule push_stops_successively) (simp split: option.split)
  ultimately show "\<not> nearlySame js (buildPoints js c ! i) (buildPoints js c ! Suc i)"
    by (rule successively_nth[rotated])
next
  assume "length (buildPoints js c) < 2"
  then show "\<exists>msg. handleStart js env prof c = ErrorSet msg"
    by (simp add: handleStart_def Let_def)
next
  assume "2 \<le> length (buildPoints js c) \<and> env = Some token \<and> token \<noteq> []
        \<and> token \<noteq> ''YOUR_MAPBOX_TOKEN_HERE''"
  then show "handleStart js env prof c = DirectionsRequested prof (buildPoints js c)"
    by (simp add: handleStart_def MAPBOX_TOKEN_def Let_def)
qed

lemmas stop_defs = placeholder_stop_def stop_at_origin_def text_stop_def nan_stop_def
  museum_stop_def park_stop_def

lemmas point_defs = has_coordinates_def Number_isNaN_def strict_eq_def js_eq_def nearlySame_def
  lit_1e_5_def example_engine_def exact_minus_def

lemma buildPoints_one_point:
  "buildPoints example_engine one_point_context
     = [(JNum (Number (- 161 / 2)), JNum (Number (87 / 2)))]"
  by (simp add: buildPoints_def one_point_context_def waterloo_def stop_defs point_defs)

lemma buildPoints_three_points:
  "buildPoints example_engine three_point_context
     = [(JNum (Number (- 161 / 2)), JNum (Number (87 / 2))),
        (JNum (Number (- 81)), JNum (Number 44)),
        (JNum (Number (- 80)), JNum (Number 43))]"
  by (simp add: buildPoints_def three_point_context_def waterloo_def stop_defs point_defs)

theorem buildPoints_wellformed_witness:
  "buildPoints example_engine three_point_context
     = [(JNum (Number (- 161 / 2)), JNum (Number (87 / 2))),
        (JNum (Number (- 81)), JNum (Number 44)),
        (JNum (Number (- 80)), JNum (Number 43))]
   \<and> has_coordinates museum_stop \<and> has_coordinates park_stop \<and> has_coordinates stop_at_origin
   \<and> \<not> has_coordinates placeholder_stop \<and> \<not> has_coordinates text_stop
   \<and> \<not> has_coordinates nan_stop
   \<and> nearlySame example_engine (JNum (Number (- 161 / 2)), JNum (Number (87 / 2)))
       (lng stop_at_origin, PlaceStop.lat stop_at_origin)
   \<and> handleStart example_engine (Some ''pk.token'') Walking three_point_context
       = DirectionsRequested Walking
           [(JNum (Number (- 161 / 2)), JNum (Number (87 / 2))),
            (JNum (Number (- 81)), JNum (Number 44)),
            (JNum (Number (- 80)), JNum (Number 43))]
   \<and> length (buildPoints example_engine one_point_context) < 2
   \<and> (\<exists>msg. handleStart example_engine (Some ''pk.token'') Walking one_point_context
              = ErrorSet msg)"
proof -
  have tests: "has_coordinates museum_stop" "has_coordinates park_stop"
    "has_coordinates stop_at_origin" "\<not> has_coordinates placeholder_stop"
    "\<not> has_coordinates text_stop" "\<not> has_coordinates nan_stop"
    "nearlySame example_engine (JNum (Number (- 161 / 2)), JNum (Number (87 / 2)))
       (lng stop_at_origin, PlaceStop.lat stop_at_origin)"
    by (simp_all add: stop_defs point_defs)
  from buildPoints_wellformed[where js = example_engine and c = three_point_context
      and env = "Some ''pk.token''" and token = "''pk.token''" and prof = Walking]
  have "handleStart example_engine (Some ''pk.token'') Walking three_point_context
       = DirectionsRequested Walking
           [(JNum (Number (- 161 / 2)), JNum (Number (87 / 2))),
            (JNum (Number (- 81)), JNum (Number 44)),
            (JNum (Number (- 80)), JNum (Number 43))]"
    by (simp add: buildPoints_three_points)
  moreover from buildPoints_wellformed[where js = example_engine and c = one_point_context
      and env = "Some ''pk.token''" and token = "''pk.token''" and prof = Walking]
  have "\<exists>msg. handleStart example_engine (Some ''pk.token'') Walking one_point_context
              = ErrorSet msg"
    by (simp add: buildPoints_one_point)
  ultimately show ?thesis
    using tests by (simp add: buildPoints_three_points buildPoints_one_point)
qed

section \<open>The planner: what every stage keeps\<close>

declare fit_budget.simps [simp del]

declare sequencer.simps [simp del]

lemma best_mem: "best score a bs \<in> set (a # bs)"
proof (induction bs arbitrary: a)
  case Nil
  show ?case by simp
next
  case (Cons b bs)
  from Cons[of "if preferred score a b then a else b"] show ?case
    by (auto split: if_splits)
qed

lemma best_of_mem: "best_of score cs = Some u \<Longrightarrow> u \<in> set cs"
  using best_mem[of score] by (auto simp: best_of_def split: list.splits)

lemma coverage_subset: "set (coverage score cats pool) \<subseteq> set pool"
proof
  fix x assume "x \<in> set (coverage score cats pool)"
  then obtain k where
    "x \<in> set (case best_of score (filter (\<lambda>c. category c = k) pool) of None \<Rightarrow> [] | Some c \<Rightarrow> [c])"
    by (auto simp: coverage_def)
  then have "best_of score (filter (\<lambda>c. category c = k) pool) = Some x"
    by (auto split: option.splits)
  from best_of_mem[OF this] show "x \<in> set pool" by simp
qed


lemma coverage_categories:
  assumes "c \<in> set (coverage score cats pool)"
  shows "category c \<in> set cats"
proof -
  from assms obtain k where k: "k \<in> set cats" and
    "c \<in> set (case best_of score (filter (\<lambda>c. category c = k) pool) of None \<Rightarrow> [] | Some c \<Rightarrow> [c])"
    by (auto simp: coverage_def)
  then have "best_of score (filter (\<lambda>c. category c = k) pool) = Some c"
    by (auto split: option.splits)
  from best_of_mem[OF this] have "category c = k" by simp
  with k show ?thesis by simp
qed


lemma drop_lowest_sub: "mset (drop_lowest score cs) \<subseteq># mset cs"
  by (simp add: drop_lowest_def split: option.split)

lemma drop_lowest_meals_sub: "mset (drop_lowest_meals score n cs) \<subseteq># mset cs"
proof (induction n arbitrary: cs)
  case 0
  show ?case by simp
next
  case (Suc n)
  let ?cs' = "case lowest_of score (filter is_meal cs) of None \<Rightarrow> cs | Some v \<Rightarrow> remove1 v cs"
  have "mset (drop_lowest_meals score n ?cs') \<subseteq># mset ?cs'" by (rule Suc.IH)
  moreover have "mset ?cs' \<subseteq># mset cs" by (simp split: option.split)
  ultimately have "mset (drop_lowest_meals score n ?cs') \<subseteq># mset cs"
    by (rule subset_mset.order_trans)
  then show ?case by simp
qed

lemma enforce_meal_cap_sub: "mset (enforce_meal_cap score cap cs) \<subseteq># mset cs"
  by (simp add: enforce_meal_cap_def drop_lowest_meals_sub)

lemma filter_remove1_Suc:
  "x \<in> set xs \<Longrightarrow> P x \<Longrightarrow> Suc (length (filter P (remove1 x xs))) = length (filter P xs)"
  by (induction xs) auto

lemma drop_lowest_meals_count:
  "length (filter is_meal (drop_lowest_meals score n cs)) = length (filter is_meal cs) - n"
proof (induction n arbitrary: cs)
  case 0
  show ?case by simp
next
  case (Suc n)
  show ?case
  proof (cases "lowest_of score (filter is_meal cs)")
    case None
    then have "filter is_meal cs = []"
      by (simp add: lowest_of_def split: list.splits)
    with None Suc.IH[of cs] show ?thesis by simp
  next
    case (Some v)
    then have "v \<in> set (filter is_meal cs)" by (rule lowest_of_mem)
    then have "Suc (length (filter is_meal (remove1 v cs))) = length (filter is_meal cs)"
      by (intro filter_remove1_Suc) auto
    moreover have "length (filter is_meal (drop_lowest_meals score (Suc n) cs))
        = length (filter is_meal (remove1 v cs)) - n"
      using Some Suc.IH[of "remove1 v cs"] by simp
    ultimately show ?thesis by arith
  qed
qed

lemma enforce_meal_cap_count: "length (filter is_meal (enforce_meal_cap score cap cs)) \<le> cap"
  unfolding enforce_meal_cap_def drop_lowest_meals_count by arith


lemma fit_budget_sub: "mset (fit_budget score b cs) \<subseteq># mset cs"
proof (induction score b cs rule: fit_budget.induct)
  case (1 score b cs)
  show ?case
  proof (cases "total_of cs \<le> b")
    case True
    then show ?thesis by (subst fit_budget.simps) simp
  next
    case False
    show ?thesis
    proof (cases "lowest_of score (drop_choices b cs)")
      case None
      with False show ?thesis by (subst fit_budget.simps) simp
    next
      case (Some v)
      from "1.IH"[OF False Some]
      have "mset (fit_budget score b (remove1 v cs)) \<subseteq># mset (remove1 v cs)" .
      moreover have "mset (remove1 v cs) \<subseteq># mset cs" by simp
      ultimately have "mset (fit_budget score b (remove1 v cs)) \<subseteq># mset cs"
        by (rule subset_mset.order_trans)
      with False Some show ?thesis by (subst fit_budget.simps) simp
    qed
  qed
qed

lemma fit_budget_total:
  "fit_budget score b cs = [] \<or> total_of (fit_budget score b cs) \<le> b"
proof (induction score b cs rule: fit_budget.induct)
  case (1 score b cs)
  show ?case
  proof (cases "total_of cs \<le> b")
    case True
    then show ?thesis by (subst (1 2) fit_budget.simps) simp
  next
    case False
    show ?thesis
    proof (cases "lowest_of score (drop_choices b cs)")
      case None
      with False show ?thesis by (subst fit_budget.simps) simp
    next
      case (Some v)
      from "1.IH"[OF False Some] False Some show ?thesis
        by (subst (1 2) fit_budget.simps) simp
    qed
  qed
qed

lemma budget_selector_sub:
  assumes "budget_selector score bud cs = Some r"
  shows "mset r \<subseteq># mset cs"
  using assms fit_budget_sub[of score _ cs]
  by (auto simp: budget_selector_def split: option.splits if_splits)

lemma budget_selector_total:
  assumes "budget_selector score (Some b) cs = Some r" and "0 \<le> b"
  shows "total_of r \<le> b"
proof (cases "total_of cs \<le> b")
  case True
  with assms(1) show ?thesis by (simp add: budget_selector_def)
next
  case False
  with assms(1) have r: "r = fit_budget score b cs"
    by (simp add: budget_selector_def split: if_splits)
  from fit_budget_total[of score b cs] show ?thesis
  proof
    assume "fit_budget score b cs = []"
    with r assms(2) show ?thesis by (simp add: total_of_def)
  next
    assume "total_of (fit_budget score b cs) \<le> b"
    with r show ?thesis by simp
  qed
qed

lemma swap_in_Some:
  assumes "swap_in score sel u = Some r"
  shows "\<exists>v. v \<in> set sel \<and> r = u # remove1 v sel"
proof (cases "filter (\<lambda>s. category s = category u) sel")
  case Nil
  with assms obtain v where "lowest_of score sel = Some v" "r = u # remove1 v sel"
    by (auto simp: swap_in_def split: option.splits)
  with lowest_of_mem[of score sel v] show ?thesis by auto
next
  case (Cons s ss)
  then have "s \<in> set (filter (\<lambda>s. category s = category u) sel)" by simp
  then have "s \<in> set sel" by simp
  moreover from assms Cons have "r = u # remove1 s sel"
    by (simp add: swap_in_def)
  ultimately show ?thesis by auto
qed

lemma novelty_guarantee_cases:
  "novelty_guarantee score rq cats pool sel = sel
   \<or> (\<exists>u. u \<in> set pool \<and> swap_allowed score rq cats sel u
          \<and> swap_in score sel u = Some (novelty_guarantee score rq cats pool sel))"
proof (cases "list_ex (\<lambda>c. \<not> visited c) pool \<and> \<not> list_ex (\<lambda>c. \<not> visited c) sel")
  case False
  then show ?thesis by (auto simp: novelty_guarantee_def)
next
  case True
  show ?thesis
  proof (cases "best_of score (filter (swap_allowed score rq cats sel) pool)")
    case None
    with True show ?thesis by (simp add: novelty_guarantee_def)
  next
    case (Some u)
    from best_of_mem[OF Some] have u: "u \<in> set pool" "swap_allowed score rq cats sel u" by auto
    show ?thesis
    proof (cases "swap_in score sel u")
      case None
      with True Some show ?thesis by (simp add: novelty_guarantee_def)
    next
      case swapped: (Some r)
      with True Some have "novelty_guarantee score rq cats pool sel = r"
        by (simp add: novelty_guarantee_def)
      with u swapped show ?thesis by auto
    qed
  qed
qed

lemma novelty_guarantee_subset:
  "set (novelty_guarantee score rq cats pool sel) \<subseteq> set pool \<union> set sel"
proof -
  from novelty_guarantee_cases[of score rq cats pool sel] show ?thesis
  proof
    assume "novelty_guarantee score rq cats pool sel = sel"
    then show ?thesis by simp
  next
    assume "\<exists>u. u \<in> set pool \<and> swap_allowed score rq cats sel u
          \<and> swap_in score sel u = Some (novelty_guarantee score rq cats pool sel)"
    then obtain u where u: "u \<in> set pool"
      and sw: "swap_in score sel u = Some (novelty_guarantee score rq cats pool sel)"
      by blast
    from swap_in_Some[OF sw] obtain v where
      "novelty_guarantee score rq cats pool sel = u # remove1 v sel" by blast
    with u set_remove1_subset[of v sel] show ?thesis by auto
  qed
qed

lemma novelty_guarantee_hard_ok:
  assumes "hard_ok rq sel"
  shows "hard_ok rq (novelty_guarantee score rq cats pool sel)"
proof -
  from novelty_guarantee_cases[of score rq cats pool sel] show ?thesis
  proof
    assume "novelty_guarantee score rq cats pool sel = sel"
    with assms show ?thesis by simp
  next
    assume "\<exists>u. u \<in> set pool \<and> swap_allowed score rq cats sel u
          \<and> swap_in score sel u = Some (novelty_guarantee score rq cats pool sel)"
    then show ?thesis by (auto simp: swap_allowed_def)
  qed
qed

lemma novelty_guarantee_categories:
  assumes "\<forall>c\<in>set sel. category c \<in> set cats"
  shows "\<forall>c\<in>set (novelty_guarantee score rq cats pool sel). category c \<in> set cats"
proof -
  from novelty_guarantee_cases[of score rq cats pool sel] show ?thesis
  proof
    assume "novelty_guarantee score rq cats pool sel = sel"
    with assms show ?thesis by simp
  next
    assume "\<exists>u. u \<in> set pool \<and> swap_allowed score rq cats sel u
          \<and> swap_in score sel u = Some (novelty_guarantee score rq cats pool sel)"
    then obtain u where u: "swap_allowed score rq cats sel u"
      and sw: "swap_in score sel u = Some (novelty_guarantee score rq cats pool sel)"
      by blast
    from swap_in_Some[OF sw] obtain v where
      eq: "novelty_guarantee score rq cats pool sel = u # remove1 v sel" by blast
    from u have "category u \<in> set cats" by (simp add: swap_allowed_def)
    with assms set_remove1_subset[of v sel] show ?thesis unfolding eq by auto
  qed
qed



lemma map_fst_assign_from: "map fst (assign_from t cs) = cs"
  by (induction cs arbitrary: t) (auto simp: Let_def)

lemma map_fst_assign_times: "map fst (assign_times rq cs) = cs"
  by (cases cs) (auto simp: assign_times_def map_fst_assign_from)

lemma fst_assign_times: "p \<in> set (assign_times rq cs) \<Longrightarrow> fst p \<in> set cs"
proof -
  assume "p \<in> set (assign_times rq cs)"
  then have "fst p \<in> fst ` set (assign_times rq cs)" by (rule imageI)
  then have "fst p \<in> set (map fst (assign_times rq cs))" by simp
  then show ?thesis by (simp only: map_fst_assign_times)
qed

lemma sequencer_shape:
  "\<forall>xs. mset (arrange xs) = mset xs \<Longrightarrow>
   \<exists>xs. sequencer score arrange rq cs = assign_times rq xs \<and> mset xs \<subseteq># mset cs
        \<and> fits_window rq (assign_times rq xs)"
proof (induction score arrange rq cs rule: sequencer.induct)
  case (1 score arrange rq cs)
  show ?case
  proof (cases "cs = []")
    case True
    then have "sequencer score arrange rq cs = assign_times rq []"
      by (subst sequencer.simps) (simp add: assign_times_def)
    moreover have "fits_window rq (assign_times rq [])"
      by (simp add: fits_window_def assign_times_def)
    ultimately show ?thesis by (intro exI[of _ "[]"]) simp
  next
    case False
    show ?thesis
    proof (cases "fits_window rq (assign_times rq (arrange cs))")
      case True
      with False have "sequencer score arrange rq cs = assign_times rq (arrange cs)"
        by (subst sequencer.simps) simp
      moreover from "1.prems" have "mset (arrange cs) \<subseteq># mset cs" by simp
      ultimately show ?thesis using True by (intro exI[of _ "arrange cs"]) simp
    next
      case unfit: False
      from "1.IH"[OF False unfit "1.prems"] obtain xs where
        xs: "sequencer score arrange rq (drop_lowest score cs) = assign_times rq xs"
        "mset xs \<subseteq># mset (drop_lowest score cs)" "fits_window rq (assign_times rq xs)"
        by blast
      from xs(2) drop_lowest_sub[of score cs] have "mset xs \<subseteq># mset cs"
        by (rule subset_mset.order_trans)
      moreover from False unfit xs(1) have "sequencer score arrange rq cs = assign_times rq xs"
        by (subst sequencer.simps) simp
      ultimately show ?thesis using xs(3) by (intro exI[of _ xs]) simp
    qed
  qed
qed

lemma total_of_mono:
  assumes sub: "mset ys \<subseteq># mset xs" and nonneg: "\<forall>c\<in>set xs. 0 \<le> ActivityCandidate.cost c"
  shows "total_of ys \<le> total_of xs"
proof -
  from sub obtain Z where "mset xs = mset ys + Z"
    by (auto simp: mset_subset_eq_exists_conv)
  moreover obtain zs where "mset zs = Z" using ex_mset by blast
  ultimately have eq: "mset xs = mset (ys @ zs)" by simp
  then have "set xs = set (ys @ zs)" by (rule mset_eq_setD)
  with nonneg have "\<forall>c\<in>set zs. 0 \<le> ActivityCandidate.cost c" by auto
  then have "0 \<le> sum_list (map ActivityCandidate.cost zs)"
    by (intro sum_list_nonneg) auto
  moreover have "sum_list (map ActivityCandidate.cost xs)
      = sum_list (map ActivityCandidate.cost (ys @ zs))"
    using eq by (metis mset_map sum_mset_sum_list)
  ultimately show ?thesis by (simp add: total_of_def)
qed

lemma count_mono:
  assumes "mset ys \<subseteq># mset xs"
  shows "length (filter P ys) \<le> length (filter P xs)"
proof -
  from assms have "filter_mset P (mset ys) \<subseteq># filter_mset P (mset xs)"
    by (rule multiset_filter_mono)
  then have "size (filter_mset P (mset ys)) \<le> size (filter_mset P (mset xs))"
    by (rule size_mset_mono)
  then show ?thesis by (metis mset_filter size_mset)
qed

section \<open>The planner: the schedule\<close>

lemma assign_from_starts:
  assumes "\<forall>c\<in>set cs. 0 \<le> ActivityCandidate.duration_hours c"
    and "p \<in> set (assign_from t cs)"
  shows "t \<le> snd p"
  using assms
proof (induction cs arbitrary: t)
  case Nil
  then show ?case by simp
next
  case (Cons a cs)
  let ?s = "case open_interval a of None \<Rightarrow> t | Some (x, y) \<Rightarrow> max t x"
  have ts: "t \<le> ?s" by (auto split: option.split)
  from Cons.prems(2) have "p = (a, ?s) \<or> p \<in> set (assign_from (?s + ActivityCandidate.duration_hours a) cs)"
    by (simp add: Let_def)
  then show ?case
  proof
    assume "p = (a, ?s)"
    with ts show ?thesis by simp
  next
    assume "p \<in> set (assign_from (?s + ActivityCandidate.duration_hours a) cs)"
    with Cons.IH[of "?s + ActivityCandidate.duration_hours a"] Cons.prems(1)
    have "?s + ActivityCandidate.duration_hours a \<le> snd p" by simp
    moreover from Cons.prems(1) have "0 \<le> ActivityCandidate.duration_hours a" by simp
    ultimately show ?thesis using ts by linarith
  qed
qed

lemma assign_from_sorted:
  assumes "\<forall>c\<in>set cs. 0 \<le> ActivityCandidate.duration_hours c"
  shows "sorted_wrt (\<lambda>p q. snd p + ActivityCandidate.duration_hours (fst p) \<le> snd q)
           (assign_from t cs)"
  using assms
proof (induction cs arbitrary: t)
  case Nil
  then show ?case by simp
next
  case (Cons a cs)
  let ?s = "case open_interval a of None \<Rightarrow> t | Some (x, y) \<Rightarrow> max t x"
  from Cons.prems have rest: "\<forall>c\<in>set cs. 0 \<le> ActivityCandidate.duration_hours c" by simp
  have "\<forall>q\<in>set (assign_from (?s + ActivityCandidate.duration_hours a) cs).
          ?s + ActivityCandidate.duration_hours a \<le> snd q"
    using assign_from_starts[OF rest] by blast
  moreover have "sorted_wrt (\<lambda>p q. snd p + ActivityCandidate.duration_hours (fst p) \<le> snd q)
           (assign_from (?s + ActivityCandidate.duration_hours a) cs)"
    by (rule Cons.IH[OF rest])
  ultimately show ?case by (simp add: Let_def)
qed

lemma assign_times_sorted:
  assumes "\<forall>c\<in>set cs. 0 \<le> ActivityCandidate.duration_hours c"
  shows "sorted_wrt (\<lambda>p q. snd p + ActivityCandidate.duration_hours (fst p) \<le> snd q)
           (assign_times rq cs)"
proof (cases cs)
  case Nil
  then show ?thesis by (simp add: assign_times_def)
next
  case (Cons a r)
  with assms have rest: "\<forall>c\<in>set r. 0 \<le> ActivityCandidate.duration_hours c" by simp
  have "\<forall>q\<in>set (assign_from (PlanRequest.start_time rq + ActivityCandidate.duration_hours a) r).
          PlanRequest.start_time rq + ActivityCandidate.duration_hours a \<le> snd q"
    using assign_from_starts[OF rest] by blast
  with assign_from_sorted[OF rest] Cons show ?thesis
    by (simp add: assign_times_def)
qed

lemma assign_times_starts:
  assumes "\<forall>c\<in>set cs. 0 \<le> ActivityCandidate.duration_hours c"
    and "p \<in> set (assign_times rq cs)"
  shows "PlanRequest.start_time rq \<le> snd p"
proof (cases cs)
  case Nil
  with assms(2) show ?thesis by (simp add: assign_times_def)
next
  case (Cons a r)
  with assms have rest: "\<forall>c\<in>set r. 0 \<le> ActivityCandidate.duration_hours c"
    and a: "0 \<le> ActivityCandidate.duration_hours a" by simp_all
  from assms(2) Cons have "p = (a, PlanRequest.start_time rq)
      \<or> p \<in> set (assign_from (PlanRequest.start_time rq + ActivityCandidate.duration_hours a) r)"
    by (simp add: assign_times_def)
  then show ?thesis
  proof
    assume "p = (a, PlanRequest.start_time rq)"
    then show ?thesis by simp
  next
    assume "p \<in> set (assign_from (PlanRequest.start_time rq + ActivityCandidate.duration_hours a) r)"
    from assign_from_starts[OF rest this] a show ?thesis by linarith
  qed
qed

lemma ends_before_last:
  assumes sorted: "sorted_wrt (\<lambda>p q. snd p + ActivityCandidate.duration_hours (fst p) \<le> snd q) sched"
    and nonneg: "\<forall>p\<in>set sched. 0 \<le> ActivityCandidate.duration_hours (fst p)"
    and fits: "fits_window rq sched"
    and p: "p \<in> set sched"
  shows "snd p + ActivityCandidate.duration_hours (fst p) \<le> PlanRequest.end_time rq"
proof (cases sched rule: rev_cases)
  case Nil
  with p show ?thesis by simp
next
  case (snoc ys l)
  from fits snoc have l: "snd l + ActivityCandidate.duration_hours (fst l) \<le> PlanRequest.end_time rq"
    by (simp add: fits_window_def case_prod_beta)
  show ?thesis
  proof (cases "p = l")
    case True
    with l show ?thesis by simp
  next
    case False
    with p snoc have "p \<in> set ys" by simp
    with sorted snoc have "snd p + ActivityCandidate.duration_hours (fst p) \<le> snd l"
      by (simp add: sorted_wrt_append)
    moreover from nonneg snoc have "0 \<le> ActivityCandidate.duration_hours (fst l)" by simp
    ultimately show ?thesis using l by linarith
  qed
qed

lemma items_from_spans:
  "map (\<lambda>x. (assigned_start_time x, ItineraryItem.duration_hours x)) (items_from i sched)
     = map (\<lambda>p. (snd p, ActivityCandidate.duration_hours (fst p))) sched"
  by (induction i sched rule: items_from.induct) auto

lemma items_from_costs:
  "map ItineraryItem.cost (items_from i sched) = map ActivityCandidate.cost (map fst sched)"
  by (induction i sched rule: items_from.induct) auto

lemma items_from_categories:
  "map item_category (items_from i sched) = map category (map fst sched)"
  by (induction i sched rule: items_from.induct) auto

lemma items_from_set:
  "x \<in> set (items_from i sched) \<Longrightarrow>
   \<exists>p\<in>set sched. assigned_start_time x = snd p
     \<and> ItineraryItem.duration_hours x = ActivityCandidate.duration_hours (fst p)
     \<and> activity_id x = cid (fst p) \<and> item_category x = category (fst p)"
  by (induction i sched rule: items_from.induct) auto

lemma items_from_sorted:
  assumes "sorted_wrt (\<lambda>p q. snd p + ActivityCandidate.duration_hours (fst p) \<le> snd q) sched"
  shows "sorted_wrt (\<lambda>a b. item_end a \<le> assigned_start_time b) (items_from i sched)"
proof -
  have "sorted_wrt (\<lambda>u v. fst u + snd u \<le> fst v)
          (map (\<lambda>p. (snd p, ActivityCandidate.duration_hours (fst p))) sched)"
    using assms by (simp add: sorted_wrt_map)
  then have "sorted_wrt (\<lambda>u v. fst u + snd u \<le> fst v)
          (map (\<lambda>x. (assigned_start_time x, ItineraryItem.duration_hours x)) (items_from i sched))"
    by (simp only: items_from_spans)
  then show ?thesis by (simp add: sorted_wrt_map item_end_def)
qed

lemma items_meal_count:
  "length (filter (\<lambda>x. item_category x = Meals) (items_from i (assign_times rq xs)))
     = length (filter is_meal xs)"
proof -
  have "length (filter (\<lambda>x. item_category x = Meals) (items_from i (assign_times rq xs)))
      = length (filter (\<lambda>k. k = Meals) (map item_category (items_from i (assign_times rq xs))))"
    by (simp add: filter_map comp_def)
  also have "\<dots> = length (filter (\<lambda>k. k = Meals) (map category xs))"
    by (simp only: items_from_categories map_fst_assign_times)
  also have "\<dots> = length (filter is_meal xs)"
    by (simp add: filter_map comp_def is_meal_def[abs_def])
  finally show ?thesis .
qed

lemma items_total_cost:
  "sum_list (map ItineraryItem.cost (items_from i (assign_times rq xs))) = total_of xs"
  by (simp only: items_from_costs map_fst_assign_times total_of_def)

section \<open>The planner: the result of a valid request\<close>

lemma plan_result:
  assumes valid: "\<not> request_invalid rq" and perm: "\<forall>xs. mset (arrange xs) = mset xs"
  shows "\<exists>it xs. plan dist_km score arrange rq pool = Inr it
           \<and> items it = items_from 0 (assign_times rq xs)
           \<and> Itinerary.total_cost it = sum_list (map ItineraryItem.cost (items it))
           \<and> set xs \<subseteq> set (constraint_filter dist_km rq pool)
           \<and> (\<forall>c\<in>set xs. category c \<in> set (normalize_interests (PlanRequest.interests rq)))
           \<and> hard_ok rq xs
           \<and> fits_window rq (assign_times rq xs)"
proof -
  let ?considered = "constraint_filter dist_km rq pool"
  let ?cats = "normalize_interests (PlanRequest.interests rq)"
  let ?selected = "coverage score ?cats ?considered"
  let ?capped = "enforce_meal_cap score (meal_cap rq) ?selected"
  have empty_ok: "hard_ok rq []"
    using valid by (auto simp: hard_ok_def total_of_def request_invalid_def split: option.splits)
  have empty_fits: "fits_window rq (assign_times rq [])"
    by (simp add: fits_window_def assign_times_def)
  have empty_items: "items (empty_itinerary why n) = items_from 0 (assign_times rq [])" for why n
    by (simp add: empty_itinerary_def assign_times_def)
  have empty_total: "Itinerary.total_cost (empty_itinerary why n)
      = sum_list (map ItineraryItem.cost (items (empty_itinerary why n)))" for why n
    by (simp add: empty_itinerary_def)
  show ?thesis
  proof (cases "?considered = []")
    case True
    with valid have "plan dist_km score arrange rq pool = Inr (empty_itinerary NoCandidatesFound 0)"
      by (simp add: plan_def Let_def)
    then show ?thesis
      by (intro exI[of _ "empty_itinerary NoCandidatesFound 0"] exI[of _ "[]"])
        (simp add: empty_ok empty_fits empty_items empty_total)
  next
    case False
    show ?thesis
    proof (cases "budget_selector score (PlanRequest.budget rq) ?capped")
      case None
      with valid False have "plan dist_km score arrange rq pool
          = Inr (empty_itinerary BudgetInfeasible (length ?considered))"
        by (simp add: plan_def Let_def)
      then show ?thesis
        by (intro exI[of _ "empty_itinerary BudgetInfeasible (length ?considered)"] exI[of _ "[]"])
          (simp add: empty_ok empty_fits empty_items empty_total)
    next
      case (Some fitted)
      let ?final = "novelty_guarantee score rq ?cats ?considered fitted"
      from valid False Some have p: "plan dist_km score arrange rq pool
          = Inr (build_itinerary (length ?considered) (length ?selected)
                   (sequencer score arrange rq ?final))"
        by (simp add: plan_def Let_def)
      have sel_sub: "set ?selected \<subseteq> set ?considered" by (rule coverage_subset)
      have fitted_sub: "mset fitted \<subseteq># mset ?capped" using Some by (rule budget_selector_sub)
      have capped_sub: "mset ?capped \<subseteq># mset ?selected" by (rule enforce_meal_cap_sub)
      have fitted_set: "set fitted \<subseteq> set ?considered"
        using set_mset_mono[OF fitted_sub] set_mset_mono[OF capped_sub] sel_sub by auto
      have final_set: "set ?final \<subseteq> set ?considered"
        using novelty_guarantee_subset[of score rq ?cats ?considered fitted] fitted_set by auto
      have "set fitted \<subseteq> set ?selected"
        using set_mset_mono[OF fitted_sub] set_mset_mono[OF capped_sub] by auto
      then have "\<forall>c\<in>set fitted. category c \<in> set ?cats"
        using coverage_categories[of _ score ?cats ?considered] by blast
      then have final_cats: "\<forall>c\<in>set ?final. category c \<in> set ?cats"
        by (rule novelty_guarantee_categories)
      have "length (filter is_meal fitted) \<le> length (filter is_meal ?capped)"
        by (rule count_mono[OF fitted_sub])
      also have "\<dots> \<le> meal_cap rq" by (rule enforce_meal_cap_count)
      finally have meals: "length (filter is_meal fitted) \<le> meal_cap rq" .
      have money: "case PlanRequest.budget rq of None \<Rightarrow> True | Some b \<Rightarrow> total_of fitted \<le> b"
      proof (cases "PlanRequest.budget rq")
        case None
        then show ?thesis by simp
      next
        case (Some b)
        with valid have "0 \<le> b" by (simp add: request_invalid_def)
        with budget_selector_total[of score b ?capped fitted] \<open>budget_selector score (PlanRequest.budget rq) ?capped = Some fitted\<close> Some
        show ?thesis by simp
      qed
      from meals money have "hard_ok rq fitted" by (simp add: hard_ok_def)
      then have final_ok: "hard_ok rq ?final" by (rule novelty_guarantee_hard_ok)
      from sequencer_shape[OF perm, of score rq ?final] obtain xs where
        xs: "sequencer score arrange rq ?final = assign_times rq xs"
        "mset xs \<subseteq># mset ?final" "fits_window rq (assign_times rq xs)"
        by blast
      have xs_set: "set xs \<subseteq> set ?considered"
        using set_mset_mono[OF xs(2)] final_set by auto
      have xs_cats: "\<forall>c\<in>set xs. category c \<in> set ?cats"
        using set_mset_mono[OF xs(2)] final_cats by auto
      have "\<forall>c\<in>set ?considered. structurally_usable c"
        by (simp add: constraint_filter_def)
      with final_set have nonneg: "\<forall>c\<in>set ?final. 0 \<le> ActivityCandidate.cost c"
        by (auto simp: structurally_usable_def)
      have "hard_ok rq xs"
        using final_ok count_mono[OF xs(2), of is_meal] total_of_mono[OF xs(2) nonneg]
        by (auto simp: hard_ok_def split: option.splits)
      with p xs(1,3) xs_set xs_cats show ?thesis
        by (intro exI[of _ "build_itinerary (length ?considered) (length ?selected)
              (assign_times rq xs)"] exI[of _ xs])
          (simp add: build_itinerary_def to_items_def)
    qed
  qed
qed

lemma usable_durations:
  assumes "set xs \<subseteq> set (constraint_filter dist_km rq pool)"
  shows "\<forall>c\<in>set xs. 0 \<le> ActivityCandidate.duration_hours c"
  using assms by (fastforce simp: constraint_filter_def structurally_usable_def)

text \<open>
  C1. A valid request gets an itinerary in which every earlier item ends no later than
  every later item starts, and every item's span lies within the window of the request.
\<close>

theorem schedule_within_window:
  assumes "\<not> request_invalid rq" and "\<forall>xs. mset (arrange xs) = mset xs"
  shows "\<exists>it. plan dist_km score arrange rq pool = Inr it
           \<and> (\<forall>i j. i < j \<and> j < length (items it)
                 \<longrightarrow> item_end (items it ! i) \<le> assigned_start_time (items it ! j))
           \<and> (\<forall>x\<in>set (items it).
                 PlanRequest.start_time rq \<le> assigned_start_time x
                 \<and> item_end x \<le> PlanRequest.end_time rq)"
proof -
  from plan_result[OF assms, of dist_km score pool] obtain it xs where
    p: "plan dist_km score arrange rq pool = Inr it"
    and its: "items it = items_from 0 (assign_times rq xs)"
    and sub: "set xs \<subseteq> set (constraint_filter dist_km rq pool)"
    and fits: "fits_window rq (assign_times rq xs)"
    by blast
  have dur: "\<forall>c\<in>set xs. 0 \<le> ActivityCandidate.duration_hours c"
    by (rule usable_durations[OF sub])
  have sorted: "sorted_wrt (\<lambda>p q. snd p + ActivityCandidate.duration_hours (fst p) \<le> snd q)
      (assign_times rq xs)"
    by (rule assign_times_sorted[OF dur])
  have "sorted_wrt (\<lambda>a b. item_end a \<le> assigned_start_time b) (items it)"
    unfolding its by (rule items_from_sorted[OF sorted])
  then have apart: "\<forall>i j. i < j \<and> j < length (items it)
      \<longrightarrow> item_end (items it ! i) \<le> assigned_start_time (items it ! j)"
    by (auto simp: sorted_wrt_iff_nth_less)
  have inside: "\<forall>x\<in>set (items it).
      PlanRequest.start_time rq \<le> assigned_start_time x \<and> item_end x \<le> PlanRequest.end_time rq"
  proof
    fix x assume "x \<in> set (items it)"
    then obtain q where q: "q \<in> set (assign_times rq xs)" "assigned_start_time x = snd q"
      "ItineraryItem.duration_hours x = ActivityCandidate.duration_hours (fst q)"
      using items_from_set[of x 0 "assign_times rq xs"] unfolding its by blast
    have "PlanRequest.start_time rq \<le> snd q"
      by (rule assign_times_starts[OF dur q(1)])
    moreover have "\<forall>p\<in>set (assign_times rq xs). 0 \<le> ActivityCandidate.duration_hours (fst p)"
      using dur fst_assign_times by blast
    from ends_before_last[OF sorted this fits q(1)]
    have "snd q + ActivityCandidate.duration_hours (fst q) \<le> PlanRequest.end_time rq" .
    ultimately show "PlanRequest.start_time rq \<le> assigned_start_time x
        \<and> item_end x \<le> PlanRequest.end_time rq"
      using q by (simp add: item_end_def)
  qed
  from p apart inside show ?thesis by blast
qed

text \<open>
  C2. A valid request with a budget gets an itinerary whose total cost, the sum of the
  costs of its items, is at most the budget.
\<close>

theorem total_cost_within_budget:
  assumes "\<not> request_invalid rq" and "\<forall>xs. mset (arrange xs) = mset xs"
    and "PlanRequest.budget rq = Some b"
  shows "\<exists>it. plan dist_km score arrange rq pool = Inr it
           \<and> Itinerary.total_cost it = sum_list (map ItineraryItem.cost (items it))
           \<and> Itinerary.total_cost it \<le> b"
proof -
  from plan_result[OF assms(1,2), of dist_km score pool] obtain it xs where
    p: "plan dist_km score arrange rq pool = Inr it"
    and its: "items it = items_from 0 (assign_times rq xs)"
    and total: "Itinerary.total_cost it = sum_list (map ItineraryItem.cost (items it))"
    and ok: "hard_ok rq xs"
    by blast
  from ok assms(3) have "total_of xs \<le> b" by (simp add: hard_ok_def)
  with total its have "Itinerary.total_cost it \<le> b" by (simp add: items_total_cost)
  with p total show ?thesis by blast
qed

text \<open>
  C3. A valid request gets an itinerary with at most 3 items of the category meals when
  its window is longer than 6 hours, and at most 2 otherwise.
\<close>

theorem meal_cap_respected:
  assumes "\<not> request_invalid rq" and "\<forall>xs. mset (arrange xs) = mset xs"
  shows "\<exists>it. plan dist_km score arrange rq pool = Inr it
           \<and> length (filter (\<lambda>x. item_category x = Meals) (items it))
               \<le> (if 6 < PlanRequest.end_time rq - PlanRequest.start_time rq then 3 else 2)"
proof -
  from plan_result[OF assms, of dist_km score pool] obtain it xs where
    p: "plan dist_km score arrange rq pool = Inr it"
    and its: "items it = items_from 0 (assign_times rq xs)"
    and ok: "hard_ok rq xs"
    by blast
  from ok have "length (filter is_meal xs) \<le> meal_cap rq" by (simp add: hard_ok_def)
  then have "length (filter (\<lambda>x. item_category x = Meals) (items it))
      \<le> (if 6 < PlanRequest.end_time rq - PlanRequest.start_time rq then 3 else 2)"
    unfolding its items_meal_count by (simp add: meal_cap_def)
  with p show ?thesis by blast
qed

section \<open>The planner on the full-day request\<close>

lemmas planner_defs = plan_def request_invalid_def constraint_filter_def
  structurally_usable_def overlaps_window_def normalize_interests_def category_of_def
  category_table_def coverage_def best_of_def preferred_def enforce_meal_cap_def meal_cap_def
  is_meal_def lowest_of_def drop_lowest_def budget_selector_def total_of_def fits_alone_def
  novelty_guarantee_def swap_allowed_def swap_in_def hard_ok_def assign_times_def
  fits_window_def build_itinerary_def to_items_def empty_itinerary_def

lemmas example_defs = flat_km_def by_confidence_def as_given_def day_request_def day_pool_def
  diner_def cinema_def lookout_def mall_def arena_def

lemma day_request_valid: "\<not> request_invalid day_request"
  by (simp add: request_invalid_def day_request_def)

lemma as_given_permutes: "\<forall>xs. mset (as_given xs) = mset xs"
  by (simp add: as_given_def)

lemma day_pool_considered:
  "constraint_filter flat_km day_request day_pool = [mall, diner, lookout, cinema]"
  by (simp add: constraint_filter_def structurally_usable_def overlaps_window_def example_defs)

lemma full_day_plan:
  "plan flat_km by_confidence as_given day_request day_pool = Inr full_day_itinerary"
  by (simp add: planner_defs example_defs full_day_itinerary_def sequencer.simps
      fit_budget.simps Let_def)

theorem schedule_within_window_witness:
  "\<not> request_invalid day_request \<and> (\<forall>xs. mset (as_given xs) = mset xs)
   \<and> (\<exists>it. plan flat_km by_confidence as_given day_request day_pool = Inr it
         \<and> (\<forall>x\<in>set (items it). 9 \<le> assigned_start_time x \<and> item_end x \<le> 17))"
proof -
  from schedule_within_window[OF day_request_valid as_given_permutes, of flat_km by_confidence
      day_pool]
  obtain it where it: "plan flat_km by_confidence as_given day_request day_pool = Inr it"
    "\<forall>x\<in>set (items it). PlanRequest.start_time day_request \<le> assigned_start_time x
        \<and> item_end x \<le> PlanRequest.end_time day_request"
    by blast
  have "PlanRequest.start_time day_request = 9" "PlanRequest.end_time day_request = 17"
    by (simp_all add: day_request_def)
  with it(2) have "\<forall>x\<in>set (items it). 9 \<le> assigned_start_time x \<and> item_end x \<le> 17"
    by simp
  with it(1) day_request_valid as_given_permutes show ?thesis by blast
qed

theorem total_cost_within_budget_witness:
  "\<not> request_invalid day_request \<and> (\<forall>xs. mset (as_given xs) = mset xs)
   \<and> PlanRequest.budget day_request = Some 200
   \<and> (\<exists>it. plan flat_km by_confidence as_given day_request day_pool = Inr it
         \<and> Itinerary.total_cost it \<le> 200)"
proof -
  have b: "PlanRequest.budget day_request = Some 200" by (simp add: day_request_def)
  from total_cost_within_budget[OF day_request_valid as_given_permutes b, of flat_km
      by_confidence day_pool]
  obtain it where "plan flat_km by_confidence as_given day_request day_pool = Inr it"
    "Itinerary.total_cost it \<le> 200"
    by blast
  with day_request_valid as_given_permutes b show ?thesis by blast
qed

theorem meal_cap_respected_witness:
  "\<not> request_invalid day_request \<and> (\<forall>xs. mset (as_given xs) = mset xs)
   \<and> (\<exists>it. plan flat_km by_confidence as_given day_request day_pool = Inr it
         \<and> length (filter (\<lambda>x. item_category x = Meals) (items it)) \<le> 3)"
proof -
  from meal_cap_respected[OF day_request_valid as_given_permutes, of flat_km by_confidence
      day_pool]
  obtain it where it: "plan flat_km by_confidence as_given day_request day_pool = Inr it"
    "length (filter (\<lambda>x. item_category x = Meals) (items it))
       \<le> (if 6 < PlanRequest.end_time day_request - PlanRequest.start_time day_request
           then 3 else 2)"
    by blast
  have "6 < PlanRequest.end_time day_request - PlanRequest.start_time day_request"
    by (simp add: day_request_def)
  with it(2) have "length (filter (\<lambda>x. item_category x = Meals) (items it)) \<le> 3" by simp
  with it(1) day_request_valid as_given_permutes show ?thesis by blast
qed

section \<open>Budgets the planner cannot meet, and a budget of 0 in the panel\<close>










section \<open>Interests the planner does not know\<close>























end
